theory Spec2Isabelle
  imports Complex_Main "HOL-Library.Word"
begin

section \<open>Wire frames\<close>

text \<open>
  Both bridges (\<^verbatim>\<open>ble_tcp_bridge.py\<close>, \<^verbatim>\<open>serial_tcp_bridge.py\<close>) speak the same framing:
  two marker bytes, a big-endian 16-bit payload length, the payload.
  Python \<^verbatim>\<open>bytes\<close> are lists of 8-bit words.
\<close>

type_synonym byte = "8 word"
type_synonym bytes = "byte list"

definition START1 :: byte where
  "START1 = 0x94"

definition START2 :: byte where
  "START2 = 0xC3"

definition MAX_PACKET_SIZE :: nat where
  "MAX_PACKET_SIZE = 512"

definition HEADER_SIZE :: nat where
  "HEADER_SIZE = 4"

text \<open>
  The exceptions of the source that the model distinguishes: \<^verbatim>\<open>ValueError\<close> (raised by
  \<^verbatim>\<open>create_tcp_frame\<close>, by an out-of-range protobuf field assignment),
  \<^verbatim>\<open>DecodeError\<close> (raised by \<^verbatim>\<open>ParseFromString\<close>) and \<^verbatim>\<open>RuntimeError\<close> (raised by
  \<^verbatim>\<open>send_to_ble\<close> when the device is not connected).
\<close>

datatype error = ValueError | DecodeError | RuntimeError

text \<open>\<^verbatim>\<open>struct.pack('>H', n)\<close> and \<^verbatim>\<open>struct.unpack('>H', b)[0]\<close>: big-endian 16 bit.\<close>

definition pack_H :: "nat \<Rightarrow> bytes" where
  "pack_H n = [of_nat (n div 256), of_nat (n mod 256)]"

definition unpack_H :: "bytes \<Rightarrow> nat" where
  "unpack_H b = unat (b ! 0) * 256 + unat (b ! 1)"

text \<open>
  \<^verbatim>\<open>MeshtasticBLEBridge.create_tcp_frame\<close>: the payload length is checked against
  \<^verbatim>\<open>MAX_PACKET_SIZE\<close> (raising \<^verbatim>\<open>ValueError\<close>), then the 4-byte header
  \<^verbatim>\<open>struct.pack('>BBH', START1, START2, length)\<close> is put in front of the payload.
\<close>

definition create_tcp_frame :: "bytes \<Rightarrow> error + bytes" where
  "create_tcp_frame protobuf_bytes =
     (let len = length protobuf_bytes in
      if len > MAX_PACKET_SIZE then Inl ValueError
      else Inr ([START1, START2] @ pack_H len @ protobuf_bytes))"

text \<open>
  \<^verbatim>\<open>serial_conn.read(n)\<close> with a timeout returns at most \<open>n\<close> bytes: the bytes that are
  there. The stream is the list of bytes still to come; a read returns what it read and
  the rest of the stream.
\<close>

definition serial_read :: "nat \<Rightarrow> bytes \<Rightarrow> bytes \<times> bytes" where
  "serial_read n s = (take n s, drop n s)"

text \<open>
  \<^verbatim>\<open>MeshtasticSerialBridge._read_one_frame_blocking\<close>, on an open serial connection
  (\<open>is_open\<close>). Every \<^verbatim>\<open>return None\<close> of the source is a \<open>None\<close> here; the result is the
  complete frame, header included, as in the source.
\<close>

definition read_one_frame_blocking :: "bool \<Rightarrow> bytes \<Rightarrow> bytes option \<times> bytes" where
  "read_one_frame_blocking is_open s =
     (if \<not> is_open then (None, s)
      else
        let (header, s1) = serial_read HEADER_SIZE s in
        if length header \<noteq> HEADER_SIZE then (None, s1)
        else if header ! 0 \<noteq> START1 \<or> header ! 1 \<noteq> START2 then (None, s1)
        else
          let len = unpack_H (drop 2 header) in
          if len > MAX_PACKET_SIZE then (None, s1)
          else
            let (payload, s2) = serial_read len s1 in
            if length payload \<noteq> len then (None, s2)
            else (Some (header @ payload), s2))"

text \<open>
  The frame reader of \<^verbatim>\<open>MeshtasticBLEBridge.handle_tcp_client\<close> (one turn of its loop, up
  to the payload): \<^verbatim>\<open>readexactly\<close> raises \<^verbatim>\<open>IncompleteReadError\<close> when the client's stream
  ends early (the handler then closes the connection), a header with a wrong marker is
  logged and skipped, and otherwise \<open>length\<close> payload bytes are read. This reader does not
  check the length against \<^verbatim>\<open>MAX_PACKET_SIZE\<close>.
\<close>

datatype frame_read =
    IncompleteRead
  | InvalidFrameStart bytes
  | Payload bytes bytes

definition read_tcp_frame :: "bytes \<Rightarrow> frame_read" where
  "read_tcp_frame s =
     (if length s < 4 then IncompleteRead
      else
        let header = take 4 s; s1 = drop 4 s in
        if header ! 0 \<noteq> START1 \<or> header ! 1 \<noteq> START2 then InvalidFrameStart s1
        else
          let len = unpack_H (drop 2 header) in
          if length s1 < len then IncompleteRead
          else Payload (take len s1) (drop len s1))"

section \<open>Reconnection backoff\<close>

definition MAX_RECONNECT_ATTEMPTS :: nat where
  "MAX_RECONNECT_ATTEMPTS = 5"

definition INITIAL_RECONNECT_DELAY :: real where
  "INITIAL_RECONNECT_DELAY = 2"

definition MAX_RECONNECT_DELAY :: real where
  "MAX_RECONNECT_DELAY = 60"

definition RECONNECT_BACKOFF_FACTOR :: real where
  "RECONNECT_BACKOFF_FACTOR = 2"

text \<open>
  The delay computed in \<^verbatim>\<open>attempt_reconnection\<close> from the attempt counter (after its
  increment): \<^verbatim>\<open>min(INITIAL * (FACTOR ** (attempts - 1)), MAX)\<close>. The floats of the
  source are reals here; every value the formula takes below the cap is a power of two,
  which a float holds exactly.
\<close>

definition reconnect_delay :: "nat \<Rightarrow> real" where
  "reconnect_delay attempts =
     min (INITIAL_RECONNECT_DELAY * (RECONNECT_BACKOFF_FACTOR powi (int attempts - 1)))
         MAX_RECONNECT_DELAY"

section \<open>Application messages\<close>

text \<open>
  The protobuf classes \<^verbatim>\<open>mesh_pb2.FromRadio\<close>, \<^verbatim>\<open>mesh_pb2.ToRadio\<close>, \<^verbatim>\<open>mesh_pb2.Position\<close>,
  \<^verbatim>\<open>mesh_pb2.User\<close> and \<^verbatim>\<open>telemetry_pb2.Telemetry\<close> come from the \<^verbatim>\<open>meshtastic\<close> package,
  which is not part of the repository. The model keeps the fields the bridge reads or
  writes; a sub-message the bridge only copies is an opaque value.
\<close>

datatype user = User bytes
datatype position = Position bytes
datatype device_metrics = DeviceMetrics bytes

datatype telemetry =
    DeviceMetricsTelemetry device_metrics
  | OtherTelemetry bytes

record node_info =
  num :: nat
  user :: "user option"
  position :: "position option"
  device_metrics :: "device_metrics option"
  last_heard :: nat
  node_rest :: bytes

record data =
  portnum :: nat
  payload :: bytes

text \<open>\<open>from_num\<close> is the field \<^verbatim>\<open>from\<close> of a \<^verbatim>\<open>MeshPacket\<close>; \<open>decoded\<close> is \<open>None\<close> when
  \<^verbatim>\<open>HasField('decoded')\<close> is false.\<close>

record mesh_packet =
  from_num :: nat
  decoded :: "data option"
  packet_rest :: bytes

text \<open>The \<^verbatim>\<open>oneof payload_variant\<close> of \<^verbatim>\<open>FromRadio\<close>: at most one member is set.\<close>

datatype payload_variant =
    Packet mesh_packet
  | MyInfo bytes
  | NodeInfo node_info
  | Config bytes
  | ConfigCompleteId nat
  | ModuleConfig bytes
  | Channel bytes
  | OtherVariant bytes
  | NoVariant

record from_radio =
  fr_id :: nat
  payload_variant :: payload_variant

datatype to_radio =
    WantConfigId nat
  | OtherToRadio bytes

text \<open>\<^verbatim>\<open>HasField('config_complete_id')\<close>, \<^verbatim>\<open>HasField('node_info')\<close>, \<^verbatim>\<open>HasField('packet')\<close> and
  \<^verbatim>\<open>HasField('want_config_id')\<close>, each with the field's value.\<close>

definition get_config_complete_id :: "from_radio \<Rightarrow> nat option" where
  "get_config_complete_id m =
     (case payload_variant m of ConfigCompleteId c \<Rightarrow> Some c | _ \<Rightarrow> None)"

definition get_node_info :: "from_radio \<Rightarrow> node_info option" where
  "get_node_info m = (case payload_variant m of NodeInfo n \<Rightarrow> Some n | _ \<Rightarrow> None)"

definition get_packet :: "from_radio \<Rightarrow> mesh_packet option" where
  "get_packet m = (case payload_variant m of Packet p \<Rightarrow> Some p | _ \<Rightarrow> None)"

definition get_want_config_id :: "to_radio \<Rightarrow> nat option" where
  "get_want_config_id m = (case m of WantConfigId c \<Rightarrow> Some c | _ \<Rightarrow> None)"

text \<open>
  The library functions the bridge calls, as parameters of the model: the protobuf
  parsers (\<open>None\<close> is a raised \<^verbatim>\<open>DecodeError\<close>) and serialisers, and Python's \<^verbatim>\<open>hash\<close> on
  \<^verbatim>\<open>bytes\<close>.
\<close>

record lib =
  parse_from_radio :: "bytes \<Rightarrow> from_radio option"
  serialize_from_radio :: "from_radio \<Rightarrow> bytes"
  parse_to_radio :: "bytes \<Rightarrow> to_radio option"
  serialize_to_radio :: "to_radio \<Rightarrow> bytes"
  parse_position :: "bytes \<Rightarrow> position option"
  parse_telemetry :: "bytes \<Rightarrow> telemetry option"
  parse_user :: "bytes \<Rightarrow> user option"
  hash_bytes :: "bytes \<Rightarrow> int"

section \<open>The BLE bridge\<close>

type_synonym cache_entry = "bytes \<times> bytes"

text \<open>
  The fields of \<^verbatim>\<open>MeshtasticBLEBridge\<close> that the cache, the deduplication and the
  reconnection use. \<open>ble_connected\<close> stands for
  \<^verbatim>\<open>self.ble_client and self.ble_client.is_connected\<close>; \<open>ble_written\<close> collects what has been
  written to the \<^verbatim>\<open>ToRadio\<close> characteristic, oldest first. \<open>poll_tasks\<close> counts the
  \<^verbatim>\<open>poll_from_radio\<close> tasks that have been created: \<^verbatim>\<open>self.poll_task\<close> holds the last one only,
  and an earlier task is never cancelled before \<^verbatim>\<open>stop\<close>, so all of them keep running.
\<close>

record bridge =
  cache_nodes :: bool
  max_cache_nodes :: int
  config_cache :: "cache_entry list option"
  config_cache_complete :: bool
  recording_config :: bool
  current_config_id :: "nat option"
  last_packet_hash :: "int option"
  last_packet_time :: real
  reconnect_attempts :: nat
  is_reconnecting :: bool
  running :: bool
  ble_connected :: bool
  ble_written :: "bytes list"
  poll_tasks :: nat

text \<open>\<^verbatim>\<open>MeshtasticBLEBridge.__init__\<close>.\<close>

definition init_bridge :: "bool \<Rightarrow> int \<Rightarrow> bridge" where
  "init_bridge cache_nodes_arg max_cache_nodes_arg =
     \<lparr> cache_nodes = cache_nodes_arg,
       max_cache_nodes = max_cache_nodes_arg,
       config_cache = (if cache_nodes_arg then Some [] else None),
       config_cache_complete = False,
       recording_config = False,
       current_config_id = None,
       last_packet_hash = None,
       last_packet_time = 0,
       reconnect_attempts = 0,
       is_reconnecting = False,
       running = False,
       ble_connected = False,
       ble_written = [],
       poll_tasks = 0 \<rparr>"

subsection \<open>Cache size limit\<close>

text \<open>The test of both eviction loops: the entry parses and \<^verbatim>\<open>HasField('node_info')\<close>. An
  entry that does not parse is not counted and is kept.\<close>

definition has_node_info :: "lib \<Rightarrow> bytes \<Rightarrow> bool" where
  "has_node_info L proto =
     (case parse_from_radio L proto of
        None \<Rightarrow> False
      | Some temp_radio \<Rightarrow> get_node_info temp_radio \<noteq> None)"

definition count_nodes :: "lib \<Rightarrow> cache_entry list \<Rightarrow> int" where
  "count_nodes L cache = int (length (filter (\<lambda>(proto, _). has_node_info L proto) cache))"

text \<open>The second loop of the completion branch: the first \<open>nodes_to_remove\<close> node
  entries are skipped, every other entry is kept in order.\<close>

fun remove_oldest_nodes :: "lib \<Rightarrow> int \<Rightarrow> int \<Rightarrow> cache_entry list \<Rightarrow> cache_entry list" where
  "remove_oldest_nodes L nodes_to_remove nodes_removed [] = []"
| "remove_oldest_nodes L nodes_to_remove nodes_removed ((proto, frame) # rest) =
     (if has_node_info L proto \<and> nodes_removed < nodes_to_remove
      then remove_oldest_nodes L nodes_to_remove (nodes_removed + 1) rest
      else (proto, frame) # remove_oldest_nodes L nodes_to_remove nodes_removed rest)"

definition enforce_cache_limit :: "lib \<Rightarrow> int \<Rightarrow> cache_entry list \<Rightarrow> cache_entry list" where
  "enforce_cache_limit L max_nodes cache =
     (let node_count = count_nodes L cache in
      if node_count > max_nodes
      then remove_oldest_nodes L (node_count - max_nodes) 0 cache
      else cache)"

subsection \<open>Keeping a complete cache fresh\<close>

text \<open>The test of both update loops: the cached entry parses, has a \<^verbatim>\<open>node_info\<close> and its
  \<^verbatim>\<open>num\<close> is \<open>node_num\<close>.\<close>

definition is_node_entry :: "lib \<Rightarrow> nat \<Rightarrow> bytes \<Rightarrow> bool" where
  "is_node_entry L node_num cached_proto =
     (case parse_from_radio L cached_proto of
        None \<Rightarrow> False
      | Some cached_from_radio \<Rightarrow>
          (case get_node_info cached_from_radio of
             None \<Rightarrow> False
           | Some n \<Rightarrow> num n = node_num))"

text \<open>The index of the first entry of the list for \<open>node_num\<close> (the loop with its
  \<^verbatim>\<open>break\<close>).\<close>

fun find_node :: "lib \<Rightarrow> nat \<Rightarrow> cache_entry list \<Rightarrow> nat option" where
  "find_node L node_num [] = None"
| "find_node L node_num ((cached_proto, frame) # rest) =
     (if is_node_entry L node_num cached_proto then Some 0
      else map_option Suc (find_node L node_num rest))"

text \<open>Python's \<^verbatim>\<open>list.insert(-1, x)\<close>: before the last element; at the front of an empty
  list.\<close>

definition insert_before_last :: "'a \<Rightarrow> 'a list \<Rightarrow> 'a list" where
  "insert_before_last x xs = (if xs = [] then [x] else butlast xs @ [x, last xs])"

text \<open>The \<^verbatim>\<open>node_info\<close> branch of a complete cache: the loop runs over
  \<^verbatim>\<open>self.config_cache[:-1]\<close>.\<close>

definition update_node_info :: "lib \<Rightarrow> nat \<Rightarrow> cache_entry \<Rightarrow> cache_entry list \<Rightarrow> cache_entry list" where
  "update_node_info L node_num entry cache =
     (case find_node L node_num (butlast cache) of
        Some i \<Rightarrow> cache[i := entry]
      | None \<Rightarrow> insert_before_last entry cache)"

datatype update_type = PositionUpdate | TelemetryUpdate | UserUpdate

definition update_type_of :: "nat \<Rightarrow> update_type option" where
  "update_type_of pn =
     (if pn = 3 then Some PositionUpdate
      else if pn = 67 then Some TelemetryUpdate
      else if pn = 4 then Some UserUpdate
      else None)"

text \<open>The three field updates; \<open>None\<close> is the \<^verbatim>\<open>DecodeError\<close> of the payload's
  \<^verbatim>\<open>ParseFromString\<close>. A telemetry message without \<^verbatim>\<open>device_metrics\<close> changes no field.\<close>

definition apply_update :: "lib \<Rightarrow> update_type \<Rightarrow> bytes \<Rightarrow> node_info \<Rightarrow> node_info option" where
  "apply_update L ut pl n =
     (case ut of
        PositionUpdate \<Rightarrow>
          (case parse_position L pl of
             None \<Rightarrow> None
           | Some p \<Rightarrow> Some (n\<lparr>position := Some p\<rparr>))
      | TelemetryUpdate \<Rightarrow>
          (case parse_telemetry L pl of
             None \<Rightarrow> None
           | Some (DeviceMetricsTelemetry d) \<Rightarrow> Some (n\<lparr>device_metrics := Some d\<rparr>)
           | Some (OtherTelemetry _) \<Rightarrow> Some n)
      | UserUpdate \<Rightarrow>
          (case parse_user L pl of
             None \<Rightarrow> None
           | Some u \<Rightarrow> Some (n\<lparr>user := Some u\<rparr>)))"

text \<open>Python's \<^verbatim>\<open>int(x)\<close> on a float: truncation towards zero.\<close>

definition py_int :: "real \<Rightarrow> int" where
  "py_int x = (if x \<ge> 0 then \<lfloor>x\<rfloor> else \<lceil>x\<rceil>)"

text \<open>
  The body of the packet loop for one cached entry: \<open>Some\<close> the new entry when the entry
  is the node's and every step succeeds, \<open>None\<close> when the loop goes on to the next entry
  (the entry is another node's or no node, or an exception was caught: a parse error, a
  \<^verbatim>\<open>last_heard\<close> outside the 32 bits of the field, a frame that is too large). The clock
  is read once for a packet: \<open>now\<close> stands for both \<^verbatim>\<open>time.time()\<close> calls.
\<close>

definition refresh_entry :: "lib \<Rightarrow> real \<Rightarrow> update_type \<Rightarrow> nat \<Rightarrow> bytes \<Rightarrow> bytes \<Rightarrow> cache_entry option" where
  "refresh_entry L now ut node_num pl cached_proto =
     (case parse_from_radio L cached_proto of
        None \<Rightarrow> None
      | Some cached_from_radio \<Rightarrow>
          (case get_node_info cached_from_radio of
             None \<Rightarrow> None
           | Some n \<Rightarrow>
               if num n \<noteq> node_num then None
               else
                 (case apply_update L ut pl n of
                    None \<Rightarrow> None
                  | Some n1 \<Rightarrow>
                      if py_int now < 0 \<or> py_int now \<ge> 2 ^ 32 then None
                      else
                        let updated_bytes = serialize_from_radio L
                              (cached_from_radio\<lparr>payload_variant :=
                                 NodeInfo (n1\<lparr>last_heard := nat (py_int now)\<rparr>)\<rparr>)
                        in (case create_tcp_frame updated_bytes of
                              Inl _ \<Rightarrow> None
                            | Inr updated_frame \<Rightarrow> Some (updated_bytes, updated_frame)))))"

fun refresh_first :: "lib \<Rightarrow> real \<Rightarrow> update_type \<Rightarrow> nat \<Rightarrow> bytes \<Rightarrow> cache_entry list \<Rightarrow> (nat \<times> cache_entry) option" where
  "refresh_first L now ut node_num pl [] = None"
| "refresh_first L now ut node_num pl ((cached_proto, frame) # rest) =
     (case refresh_entry L now ut node_num pl cached_proto of
        Some e \<Rightarrow> Some (0, e)
      | None \<Rightarrow> map_option (\<lambda>(i, e). (Suc i, e)) (refresh_first L now ut node_num pl rest))"

text \<open>The \<^verbatim>\<open>packet\<close> branch of a complete cache.\<close>

definition update_from_packet :: "lib \<Rightarrow> real \<Rightarrow> mesh_packet \<Rightarrow> cache_entry list \<Rightarrow> cache_entry list" where
  "update_from_packet L now pkt cache =
     (case decoded pkt of
        None \<Rightarrow> cache
      | Some d \<Rightarrow>
          (case update_type_of (portnum d) of
             None \<Rightarrow> cache
           | Some ut \<Rightarrow>
               if from_num pkt = 0 then cache
               else
                 (case refresh_first L now ut (from_num pkt) (payload d) (butlast cache) of
                    None \<Rightarrow> cache
                  | Some (i, e) \<Rightarrow> cache[i := e])))"

subsection \<open>Packets from the device\<close>

text \<open>
  The caching block of \<^verbatim>\<open>on_ble_packet\<close> (\<^verbatim>\<open>if self.config_cache is not None: try: ...\<close>).
  A packet that does not parse leaves the state as it is (the exception is logged).
\<close>

definition cache_packet :: "lib \<Rightarrow> real \<Rightarrow> bridge \<Rightarrow> bytes \<Rightarrow> bytes \<Rightarrow> bridge" where
  "cache_packet L now st protobuf_bytes tcp_frame =
     (case config_cache st of
        None \<Rightarrow> st
      | Some cache \<Rightarrow>
          (case parse_from_radio L protobuf_bytes of
             None \<Rightarrow> st
           | Some m \<Rightarrow>
               (case get_config_complete_id m of
                  Some cid \<Rightarrow>
                    if recording_config st \<and> Some cid = current_config_id st
                    then st\<lparr>config_cache := Some (enforce_cache_limit L (max_cache_nodes st)
                                                    (cache @ [(protobuf_bytes, tcp_frame)])),
                            config_cache_complete := True,
                            recording_config := False\<rparr>
                    else st
                | None \<Rightarrow>
                    if recording_config st
                    then st\<lparr>config_cache := Some (cache @ [(protobuf_bytes, tcp_frame)])\<rparr>
                    else if config_cache_complete st
                    then (case get_node_info m of
                            Some n \<Rightarrow>
                              st\<lparr>config_cache :=
                                   Some (update_node_info L (num n) (protobuf_bytes, tcp_frame) cache)\<rparr>
                          | None \<Rightarrow>
                              (case get_packet m of
                                 Some pkt \<Rightarrow>
                                   st\<lparr>config_cache := Some (update_from_packet L now pkt cache)\<rparr>
                               | None \<Rightarrow> st))
                    else st)))"

text \<open>What \<^verbatim>\<open>on_ble_packet\<close> did with a packet: skipped it as a duplicate, broadcast its
  frame to the TCP clients, or logged an error (the frame could not be built).\<close>

datatype outcome =
    Skipped
  | Broadcast bytes
  | Failed error

text \<open>\<^verbatim>\<open>on_ble_packet\<close>, with the clock reading \<open>current_time\<close> of its \<^verbatim>\<open>time.time()\<close>.\<close>

definition on_ble_packet :: "lib \<Rightarrow> real \<Rightarrow> bridge \<Rightarrow> bytes \<Rightarrow> bridge \<times> outcome" where
  "on_ble_packet L current_time st protobuf_bytes =
     (let packet_hash = hash_bytes L protobuf_bytes in
      if Some packet_hash = last_packet_hash st
         \<and> current_time - last_packet_time st < 0.1
      then (st, Skipped)
      else
        let st1 = st\<lparr>last_packet_hash := Some packet_hash, last_packet_time := current_time\<rparr> in
        (case create_tcp_frame protobuf_bytes of
           Inl e \<Rightarrow> (st1, Failed e)
         | Inr tcp_frame \<Rightarrow>
             (cache_packet L current_time st1 protobuf_bytes tcp_frame, Broadcast tcp_frame)))"

text \<open>A run of the poll loop over the packets the device delivers, each with its
  arrival time: the final state and the outcomes, in order.\<close>

fun on_ble_packets :: "lib \<Rightarrow> bridge \<Rightarrow> (real \<times> bytes) list \<Rightarrow> bridge \<times> outcome list" where
  "on_ble_packets L st [] = (st, [])"
| "on_ble_packets L st ((t, b) # rest) =
     (let (st1, r) = on_ble_packet L t st b;
          (st2, rs) = on_ble_packets L st1 rest
      in (st2, r # rs))"

subsection \<open>Requests from a TCP client\<close>

text \<open>\<^verbatim>\<open>send_to_ble\<close>: raises \<^verbatim>\<open>RuntimeError\<close> when the device is not connected, otherwise
  writes the serialised packet to the \<^verbatim>\<open>ToRadio\<close> characteristic.\<close>

definition send_to_ble :: "lib \<Rightarrow> bridge \<Rightarrow> to_radio \<Rightarrow> error + bridge" where
  "send_to_ble L st pkt =
     (if \<not> ble_connected st then Inl RuntimeError
      else Inr (st\<lparr>ble_written := ble_written st @ [serialize_to_radio L pkt]\<rparr>))"

text \<open>
  The replay loop of \<^verbatim>\<open>handle_tcp_client\<close>: the frames written to the client. Every entry
  but the last is written as cached; the last is parsed, its \<^verbatim>\<open>config_complete_id\<close> is set
  to the requested id (which sets this member of the oneof), and it is serialised and
  framed again. An exception ends the loop (\<^verbatim>\<open>break\<close>).
\<close>

fun replay :: "lib \<Rightarrow> nat \<Rightarrow> cache_entry list \<Rightarrow> bytes list" where
  "replay L requested_id [] = []"
| "replay L requested_id [(cached_protobuf, cached_frame)] =
     (case parse_from_radio L cached_protobuf of
        None \<Rightarrow> []
      | Some m \<Rightarrow>
          (case create_tcp_frame
                  (serialize_from_radio L (m\<lparr>payload_variant := ConfigCompleteId requested_id\<rparr>)) of
             Inl _ \<Rightarrow> []
           | Inr updated_frame \<Rightarrow> [updated_frame]))"
| "replay L requested_id ((cached_protobuf, cached_frame) # e # rest) =
     cached_frame # replay L requested_id (e # rest)"

text \<open>
  One payload read from a client, in \<^verbatim>\<open>handle_tcp_client\<close>: the state of the bridge and
  the frames written to this client (\<open>w\<close>, oldest first). A payload that does not parse,
  or a \<^verbatim>\<open>send_to_ble\<close> that raises, is logged and the loop goes on.
\<close>

definition handle_client_payload :: "lib \<Rightarrow> bridge \<Rightarrow> bytes list \<Rightarrow> bytes \<Rightarrow> bridge \<times> bytes list" where
  "handle_client_payload L st w protobuf_bytes =
     (case parse_to_radio L protobuf_bytes of
        None \<Rightarrow> (st, w)
      | Some m \<Rightarrow>
          (case (config_cache st, get_want_config_id m) of
             (Some cache, Some requested_id) \<Rightarrow>
               if config_cache_complete st then (st, w @ replay L requested_id cache)
               else (case send_to_ble L st m of Inl _ \<Rightarrow> (st, w) | Inr st1 \<Rightarrow> (st1, w))
           | _ \<Rightarrow> (case send_to_ble L st m of Inl _ \<Rightarrow> (st, w) | Inr st1 \<Rightarrow> (st1, w))))"

subsection \<open>Pre-warming and reconnection\<close>

text \<open>
  \<^verbatim>\<open>prewarm_cache\<close>. \<open>config_id\<close> is the random id it draws; \<open>arrivals\<close> are the packets
  the poll loop hands to \<^verbatim>\<open>on_ble_packet\<close> while \<^verbatim>\<open>prewarm_cache\<close> waits (with their arrival
  times). \<^verbatim>\<open>self.config_cache.clear()\<close> raises on \<^verbatim>\<open>None\<close>, and \<^verbatim>\<open>send_to_ble\<close> may raise:
  the handler only resets \<^verbatim>\<open>recording_config\<close>, as the normal and the timeout exits do.
\<close>

definition prewarm_cache :: "lib \<Rightarrow> nat \<Rightarrow> (real \<times> bytes) list \<Rightarrow> bridge \<Rightarrow> bridge" where
  "prewarm_cache L config_id arrivals st =
     (let st1 = st\<lparr>recording_config := True, current_config_id := Some config_id\<rparr> in
      case config_cache st1 of
        None \<Rightarrow> st1\<lparr>recording_config := False\<rparr>
      | Some _ \<Rightarrow>
          let st2 = st1\<lparr>config_cache := Some [], config_cache_complete := False\<rparr> in
          (case send_to_ble L st2 (WantConfigId config_id) of
             Inl _ \<Rightarrow> st2\<lparr>recording_config := False\<rparr>
           | Inr st3 \<Rightarrow> (fst (on_ble_packets L st3 arrivals))\<lparr>recording_config := False\<rparr>))"

text \<open>\<^verbatim>\<open>connect_ble\<close>, as far as the bridge's own state goes: \<open>ok\<close> tells whether the
  BLE connection could be made; otherwise the exception is raised again. On success the
  reconnection state is reset and a new \<^verbatim>\<open>poll_from_radio\<close> task is created
  (\<^verbatim>\<open>self.poll_task = asyncio.create_task(self.poll_from_radio())\<close>), also when the call
  comes from \<^verbatim>\<open>attempt_reconnection\<close>, that is from inside a poll task that goes on running.\<close>

definition connect_ble :: "bool \<Rightarrow> bridge \<Rightarrow> error + bridge" where
  "connect_ble ok st =
     (if ok
      then Inr (st\<lparr>ble_connected := True, reconnect_attempts := 0, is_reconnecting := False,
                  poll_tasks := Suc (poll_tasks st)\<rparr>)
      else Inl RuntimeError)"

text \<open>What the world does at one reconnection attempt: whether the connection can be
  made, and what the pre-warming that follows it draws and receives.\<close>

record attempt =
  connect_ok :: bool
  prewarm_id :: nat
  prewarm_arrivals :: "(real \<times> bytes) list"

text \<open>One attempt of the loop of \<^verbatim>\<open>attempt_reconnection\<close>, after the counter has been
  incremented and the delay slept: the old client is dropped, \<^verbatim>\<open>connect_ble\<close> runs, and the
  cache is pre-warmed when caching is on.\<close>

definition try_reconnect :: "lib \<Rightarrow> attempt \<Rightarrow> bridge \<Rightarrow> error + bridge" where
  "try_reconnect L a st =
     (case connect_ble (connect_ok a) (st\<lparr>ble_connected := False\<rparr>) of
        Inl e \<Rightarrow> Inl e
      | Inr st1 \<Rightarrow>
          Inr ((if cache_nodes st1
                then prewarm_cache L (prewarm_id a) (prewarm_arrivals a) st1
                else st1)\<lparr>is_reconnecting := False\<rparr>))"

text \<open>
  The \<^verbatim>\<open>while\<close> loop of \<^verbatim>\<open>attempt_reconnection\<close>: the state, the returned flag and the
  delays slept, in order. \<open>env k\<close> is what the world does at the attempt that the counter
  numbers \<open>k\<close>.
\<close>

function reconnect_loop :: "lib \<Rightarrow> (nat \<Rightarrow> attempt) \<Rightarrow> bridge \<Rightarrow> bridge \<times> bool \<times> real list" where
  "reconnect_loop L env st =
     (if reconnect_attempts st < MAX_RECONNECT_ATTEMPTS \<and> running st
      then
        (case try_reconnect L (env (Suc (reconnect_attempts st)))
                (st\<lparr>reconnect_attempts := Suc (reconnect_attempts st)\<rparr>) of
           Inr st1 \<Rightarrow> (st1, True, [reconnect_delay (Suc (reconnect_attempts st))])
         | Inl _ \<Rightarrow>
             if Suc (reconnect_attempts st) \<ge> MAX_RECONNECT_ATTEMPTS
             then (st\<lparr>reconnect_attempts := Suc (reconnect_attempts st),
                       ble_connected := False, is_reconnecting := False\<rparr>,
                   False, [reconnect_delay (Suc (reconnect_attempts st))])
             else
               (case reconnect_loop L env
                       (st\<lparr>reconnect_attempts := Suc (reconnect_attempts st),
                           ble_connected := False\<rparr>) of
                  (st2, r, delays) \<Rightarrow>
                    (st2, r, reconnect_delay (Suc (reconnect_attempts st)) # delays)))
      else (st\<lparr>is_reconnecting := False\<rparr>, False, []))"
  by pat_completeness auto
termination
  by (relation "measure (\<lambda>(L, env, st). MAX_RECONNECT_ATTEMPTS - reconnect_attempts st)") auto

declare reconnect_loop.simps [simp del]

definition attempt_reconnection :: "lib \<Rightarrow> (nat \<Rightarrow> attempt) \<Rightarrow> bridge \<Rightarrow> bridge \<times> bool \<times> real list" where
  "attempt_reconnection L env st =
     (if is_reconnecting st then (st, True, [])
      else reconnect_loop L env (st\<lparr>is_reconnecting := True\<rparr>))"

text \<open>
  The turn of the loop of \<^verbatim>\<open>poll_from_radio\<close> that finds the connection lost: when
  \<^verbatim>\<open>attempt_reconnection\<close> returns false, \<^verbatim>\<open>running\<close> is cleared and \<^verbatim>\<open>sys.exit(1)\<close> ends the
  process; otherwise the loop goes on polling.
\<close>

datatype poll_result =
    KeepPolling
  | ProcessExit int

definition poll_connection_lost :: "lib \<Rightarrow> (nat \<Rightarrow> attempt) \<Rightarrow> bridge \<Rightarrow> bridge \<times> poll_result \<times> real list" where
  "poll_connection_lost L env st =
     (case attempt_reconnection L env st of
        (st1, reconnected, delays) \<Rightarrow>
          if \<not> reconnected then (st1\<lparr>running := False\<rparr>, ProcessExit 1, delays)
          else (st1, KeepPolling, delays))"

text \<open>
  The functions above run \<^verbatim>\<open>attempt_reconnection\<close> from its call to its return, as one
  poll task alone sees it. Tasks of the event loop take turns only at an \<^verbatim>\<open>await\<close> that
  suspends, so what several poll tasks do depends on where each one suspends.
  \<open>run_poll_loop\<close> is one poll task from the top of the \<^verbatim>\<open>while self.running\<close> loop of
  \<^verbatim>\<open>poll_from_radio\<close> to the first point where it suspends or ends, with the device's
  connection as \<open>ble_connected\<close> says:
  \<^item> connected: it suspends in \<^verbatim>\<open>await self.ble_client.read_gatt_char(...)\<close>;
  \<^item> not connected and \<^verbatim>\<open>is_reconnecting\<close> set: \<^verbatim>\<open>attempt_reconnection\<close> returns \<^verbatim>\<open>True\<close>
    at once (awaiting a coroutine that returns without suspending does not suspend the
    caller), and \<^verbatim>\<open>continue\<close> leads back to the top of the loop;
  \<^item> not connected, no reconnection under way, attempts left: \<^verbatim>\<open>is_reconnecting\<close> is set,
    the counter is incremented and the task suspends in \<^verbatim>\<open>await asyncio.sleep(delay)\<close>;
  \<^item> not connected, no attempts left: \<^verbatim>\<open>attempt_reconnection\<close> returns \<^verbatim>\<open>False\<close> and
    \<^verbatim>\<open>sys.exit(1)\<close> follows.
  The result \<open>None\<close> says that the task reaches none of these points: it runs for ever
  without suspending.
\<close>

datatype poll_point =
    AwaitRead
  | AwaitBackoff real
  | Exits int
  | LoopEnds

partial_function (option) run_poll_loop :: "bridge \<Rightarrow> (bridge \<times> poll_point) option" where
  "run_poll_loop st =
     (if \<not> running st then Some (st, LoopEnds)
      else if ble_connected st then Some (st, AwaitRead)
      else if is_reconnecting st then run_poll_loop st
      else if reconnect_attempts st < MAX_RECONNECT_ATTEMPTS
      then Some (st\<lparr>is_reconnecting := True, reconnect_attempts := Suc (reconnect_attempts st)\<rparr>,
                 AwaitBackoff (reconnect_delay (Suc (reconnect_attempts st))))
      else Some (st\<lparr>is_reconnecting := False, running := False\<rparr>, Exits 1))"

subsection \<open>The deduplication rule in the words of the specification\<close>

text \<open>
  The previous delivery, as the bridge remembers it: the hash and the arrival time of
  the last packet that was not skipped, \<open>None\<close> before the first packet.
\<close>

definition previous_delivery :: "bridge \<Rightarrow> (int \<times> real) option" where
  "previous_delivery st = map_option (\<lambda>h. (h, last_packet_time st)) (last_packet_hash st)"

text \<open>
  The rule of the specification, written over the sequence of arrivals alone and not
  over the fields of the bridge: a message is a duplicate, and dropped, when its
  fingerprint is the fingerprint of the previous delivery and it arrives less than
  100 ms after it; a message that is not dropped becomes the previous delivery. The
  result tells for each arrival whether it is dropped.
\<close>

fun spec_dedup :: "lib \<Rightarrow> (int \<times> real) option \<Rightarrow> (real \<times> bytes) list \<Rightarrow> bool list" where
  "spec_dedup L prev [] = []"
| "spec_dedup L prev ((t, b) # rest) =
     (if (case prev of None \<Rightarrow> False | Some (h, t0) \<Rightarrow> hash_bytes L b = h \<and> t - t0 < 0.1)
      then True # spec_dedup L prev rest
      else False # spec_dedup L (Some (hash_bytes L b, t)) rest)"

subsection \<open>Completed caches\<close>

text \<open>A completion entry: its payload parses and \<^verbatim>\<open>HasField('config_complete_id')\<close>.\<close>

definition is_completion_entry :: "lib \<Rightarrow> cache_entry \<Rightarrow> bool" where
  "is_completion_entry L e =
     (case parse_from_radio L (fst e) of
        None \<Rightarrow> False
      | Some m \<Rightarrow> get_config_complete_id m \<noteq> None)"

text \<open>
  A bridge whose cache is complete: the flag is set, no recording is under way, and the
  cache ends with a completion entry. \<open>cache_ok\<close> says that a set flag means all of
  this; it holds of the initial state and every operation of the bridge keeps it
  (lemmas \<open>init_bridge_ok\<close>, \<open>on_ble_packet_ok\<close>, \<open>prewarm_cache_ok\<close>,
  \<open>handle_client_payload_cache\<close>).
\<close>

definition cache_completed :: "lib \<Rightarrow> bridge \<Rightarrow> bool" where
  "cache_completed L st =
     (config_cache_complete st \<and> \<not> recording_config st
      \<and> (case config_cache st of
            None \<Rightarrow> False
          | Some cache \<Rightarrow> cache \<noteq> [] \<and> is_completion_entry L (last cache)))"

definition cache_ok :: "lib \<Rightarrow> bridge \<Rightarrow> bool" where
  "cache_ok L st = (if config_cache_complete st then cache_completed L st else True)"

section \<open>A small concrete library\<close>

text \<open>
  The theorems below hold for every library \<open>L\<close>. To run the model on concrete inputs,
  \<open>demo_lib\<close> is a small byte format with the same interface: the first byte is a tag
  (7 a completion marker, 4 a node, 2 a mesh packet, 5 a configuration block; 100 a
  configuration request), sub-messages are one byte long, anything else does not parse.
  As a protobuf parser accepts a varint written with more bytes than needed, the request
  parser accepts the id followed by a zero byte; the serialiser writes the short form.
\<close>

definition demo_opt :: "bytes option \<Rightarrow> bytes" where
  "demo_opt x = (case x of None \<Rightarrow> [0, 0] | Some b \<Rightarrow> [1, (case b of [] \<Rightarrow> 0 | y # _ \<Rightarrow> y)])"

definition demo_unopt :: "byte \<Rightarrow> byte \<Rightarrow> bytes option" where
  "demo_unopt f x = (if f = 0 then None else Some [x])"

definition demo_serialize_from_radio :: "from_radio \<Rightarrow> bytes" where
  "demo_serialize_from_radio m =
     (case payload_variant m of
        ConfigCompleteId c \<Rightarrow> [7, of_nat c]
      | NodeInfo n \<Rightarrow>
          [4, of_nat (num n div 256), of_nat (num n mod 256), of_nat (last_heard n)]
          @ demo_opt (map_option (\<lambda>u. case u of User b \<Rightarrow> b) (user n))
          @ demo_opt (map_option (\<lambda>u. case u of Position b \<Rightarrow> b) (position n))
          @ demo_opt (map_option (\<lambda>u. case u of DeviceMetrics b \<Rightarrow> b) (device_metrics n))
      | Packet pkt \<Rightarrow>
          (case decoded pkt of
             None \<Rightarrow> [2, of_nat (from_num pkt)]
           | Some d \<Rightarrow> [2, of_nat (from_num pkt), of_nat (portnum d)] @ payload d)
      | Config b \<Rightarrow> 5 # b
      | _ \<Rightarrow> [])"

definition demo_parse_from_radio :: "bytes \<Rightarrow> from_radio option" where
  "demo_parse_from_radio b =
     (case b of
        [] \<Rightarrow> None
      | t # r \<Rightarrow>
          if t = 7 then
            (case r of [c] \<Rightarrow> Some \<lparr>fr_id = 0, payload_variant = ConfigCompleteId (unat c)\<rparr>
                     | _ \<Rightarrow> None)
          else if t = 4 then
            (case r of
               [nh, nl, h, uf, u, pf, p, df, d] \<Rightarrow>
                 Some \<lparr>fr_id = 0, payload_variant = NodeInfo
                   \<lparr>num = unat nh * 256 + unat nl,
                    user = map_option User (demo_unopt uf u),
                    position = map_option Position (demo_unopt pf p),
                    device_metrics = map_option DeviceMetrics (demo_unopt df d),
                    last_heard = unat h,
                    node_rest = []\<rparr>\<rparr>
             | _ \<Rightarrow> None)
          else if t = 2 then
            (case r of
               [] \<Rightarrow> None
             | [f] \<Rightarrow> Some \<lparr>fr_id = 0, payload_variant = Packet
                        \<lparr>from_num = unat f, decoded = None, packet_rest = []\<rparr>\<rparr>
             | f # pn # pl \<Rightarrow> Some \<lparr>fr_id = 0, payload_variant = Packet
                        \<lparr>from_num = unat f,
                         decoded = Some \<lparr>portnum = unat pn, payload = pl\<rparr>,
                         packet_rest = []\<rparr>\<rparr>)
          else if t = 5 then Some \<lparr>fr_id = 0, payload_variant = Config r\<rparr>
          else None)"

definition demo_parse_to_radio :: "bytes \<Rightarrow> to_radio option" where
  "demo_parse_to_radio b =
     (case b of
        [] \<Rightarrow> None
      | t # r \<Rightarrow>
          if t = 100 then
            (case r of
               [c] \<Rightarrow> Some (WantConfigId (unat c))
             | [c, z] \<Rightarrow> if z = 0 then Some (WantConfigId (unat c)) else None
             | _ \<Rightarrow> None)
          else if t = 1 then Some (OtherToRadio r)
          else None)"

definition demo_serialize_to_radio :: "to_radio \<Rightarrow> bytes" where
  "demo_serialize_to_radio m =
     (case m of WantConfigId c \<Rightarrow> [100, of_nat c] | OtherToRadio r \<Rightarrow> 1 # r)"

definition demo_parse_telemetry :: "bytes \<Rightarrow> telemetry option" where
  "demo_parse_telemetry b =
     (case b of
        [] \<Rightarrow> None
      | t # r \<Rightarrow>
          if t = 1 then (case r of [d] \<Rightarrow> Some (DeviceMetricsTelemetry (DeviceMetrics [d]))
                                 | _ \<Rightarrow> None)
          else Some (OtherTelemetry r))"

definition demo_lib :: lib where
  "demo_lib =
     \<lparr> parse_from_radio = demo_parse_from_radio,
       serialize_from_radio = demo_serialize_from_radio,
       parse_to_radio = demo_parse_to_radio,
       serialize_to_radio = demo_serialize_to_radio,
       parse_position = (\<lambda>b. case b of [p] \<Rightarrow> Some (Position [p]) | _ \<Rightarrow> None),
       parse_telemetry = demo_parse_telemetry,
       parse_user = (\<lambda>b. case b of [u] \<Rightarrow> Some (User [u]) | _ \<Rightarrow> None),
       hash_bytes = (\<lambda>b. foldr (\<lambda>x h. uint x + h) b 0) \<rparr>"

text \<open>The node message of \<open>demo_lib\<close> for node \<open>k\<close> with nothing but its number, a
  completion marker, and their cache entries.\<close>

definition demo_node :: "nat \<Rightarrow> bytes" where
  "demo_node k = [4, of_nat (k div 256), of_nat (k mod 256), 0, 0, 0, 0, 0, 0, 0]"

definition demo_entry :: "bytes \<Rightarrow> cache_entry" where
  "demo_entry b = (b, [START1, START2] @ pack_H (length b) @ b)"

text \<open>The cache entries of the nodes \<open>i\<close> to \<open>j - 1\<close>, and their messages as arrivals
  from the device, node \<open>k\<close> arriving at time \<open>k + 1\<close>.\<close>

definition demo_entries :: "nat \<Rightarrow> nat \<Rightarrow> cache_entry list" where
  "demo_entries i j = map (\<lambda>k. demo_entry (demo_node k)) [i..<j]"


section \<open>Frame codec: proofs\<close>

lemma unpack_pack_H: "n < 65536 \<Longrightarrow> unpack_H (pack_H n) = n"
proof -
  assume n: "n < 65536"
  have hi: "unat (of_nat (n div 256) :: byte) = n div 256"
    using n by (simp add: unat_of_nat)
  have lo: "unat (of_nat (n mod 256) :: byte) = n mod 256"
    by (simp add: unat_of_nat)
  show ?thesis
    by (simp add: unpack_H_def pack_H_def hi lo)
qed

lemma create_tcp_frame_ok:
  "length p \<le> 512 \<Longrightarrow> create_tcp_frame p = Inr ([START1, START2] @ pack_H (length p) @ p)"
  by (simp add: create_tcp_frame_def MAX_PACKET_SIZE_def)

lemma create_tcp_frame_too_large:
  "512 < length p \<Longrightarrow> create_tcp_frame p = Inl ValueError"
  by (simp add: create_tcp_frame_def MAX_PACKET_SIZE_def)

lemma read_one_frame_of_frame:
  assumes "length p \<le> 512"
  shows "read_one_frame_blocking True ([START1, START2] @ pack_H (length p) @ p @ rest)
         = (Some ([START1, START2] @ pack_H (length p) @ p), rest)"
proof -
  have u: "unpack_H (pack_H (length p)) = length p"
    using assms by (simp add: unpack_pack_H)
  have d: "drop 2 (take 4 ([START1, START2] @ pack_H (length p) @ p @ rest)) = pack_H (length p)"
    by (simp add: pack_H_def)
  have t: "take 4 ([START1, START2] @ pack_H (length p) @ p @ rest)
           = [START1, START2] @ pack_H (length p)"
    by (simp add: pack_H_def)
  have r: "drop 4 ([START1, START2] @ pack_H (length p) @ p @ rest) = p @ rest"
    by (simp add: pack_H_def)
  show ?thesis
    unfolding read_one_frame_blocking_def serial_read_def HEADER_SIZE_def Let_def split_conv t r
    using assms u by (simp add: pack_H_def MAX_PACKET_SIZE_def)
qed

lemma read_tcp_frame_of_frame:
  assumes "length p \<le> 512"
  shows "read_tcp_frame ([START1, START2] @ pack_H (length p) @ p @ rest) = Payload p rest"
proof -
  have u: "unpack_H (pack_H (length p)) = length p"
    using assms by (simp add: unpack_pack_H)
  have t: "take 4 ([START1, START2] @ pack_H (length p) @ p @ rest)
           = [START1, START2] @ pack_H (length p)"
    by (simp add: pack_H_def)
  have r: "drop 4 ([START1, START2] @ pack_H (length p) @ p @ rest) = p @ rest"
    by (simp add: pack_H_def)
  have l: "\<not> length ([START1, START2] @ pack_H (length p) @ p @ rest) < 4"
    by (simp add: pack_H_def)
  show ?thesis
    unfolding read_tcp_frame_def Let_def t r
    using u l by (simp add: pack_H_def)
qed

section \<open>Frame round trip\<close>

text \<open>
  Claim C9. A payload of at most 512 bytes is framed by \<open>create_tcp_frame\<close>, and reading
  the frame back gives the payload: the reader of the BLE bridge's TCP side returns
  exactly the payload, the reader of the serial bridge returns the frame whose header
  declares the payload's length and whose bytes after the header are the payload. A
  payload of more than 512 bytes is refused with \<open>ValueError\<close>.
\<close>

theorem frame_round_trip:
  "(length p \<le> 512 \<longrightarrow>
      (\<exists>frame. create_tcp_frame p = Inr frame
         \<and> read_tcp_frame (frame @ rest) = Payload p rest
         \<and> read_one_frame_blocking True (frame @ rest) = (Some frame, rest)
         \<and> unpack_H (drop 2 (take HEADER_SIZE frame)) = length p
         \<and> drop HEADER_SIZE frame = p))
   \<and> (512 < length p \<longrightarrow> create_tcp_frame p = Inl ValueError)"
proof (intro conjI impI)
  assume le: "length p \<le> 512"
  let ?frame = "[START1, START2] @ pack_H (length p) @ p"
  have c: "create_tcp_frame p = Inr ?frame"
    using le by (rule create_tcp_frame_ok)
  have t: "read_tcp_frame (?frame @ rest) = Payload p rest"
    using read_tcp_frame_of_frame [OF le, of rest] by simp
  have s: "read_one_frame_blocking True (?frame @ rest) = (Some ?frame, rest)"
    using read_one_frame_of_frame [OF le, of rest] by simp
  have u: "unpack_H (drop 2 (take HEADER_SIZE ?frame)) = length p"
    using unpack_pack_H [of "length p"] le by (simp add: HEADER_SIZE_def pack_H_def)
  have d: "drop HEADER_SIZE ?frame = p"
    by (simp add: HEADER_SIZE_def pack_H_def)
  show "\<exists>frame. create_tcp_frame p = Inr frame
         \<and> read_tcp_frame (frame @ rest) = Payload p rest
         \<and> read_one_frame_blocking True (frame @ rest) = (Some frame, rest)
         \<and> unpack_H (drop 2 (take HEADER_SIZE frame)) = length p
         \<and> drop HEADER_SIZE frame = p"
    using c t s u d by blast
next
  assume "512 < length p"
  then show "create_tcp_frame p = Inl ValueError"
    by (rule create_tcp_frame_too_large)
qed

theorem frame_round_trip_witness:
  "length (replicate 512 (7 :: byte)) \<le> 512
   \<and> (\<exists>frame. create_tcp_frame (replicate 512 7) = Inr frame
        \<and> read_tcp_frame (frame @ [1, 2]) = Payload (replicate 512 7) [1, 2]
        \<and> read_one_frame_blocking True (frame @ [1, 2]) = (Some frame, [1, 2])
        \<and> drop HEADER_SIZE frame = replicate 512 7)
   \<and> 512 < length (replicate 513 (7 :: byte))
   \<and> create_tcp_frame (replicate 513 7) = Inl ValueError"
  using frame_round_trip [of "replicate 512 7" "[1, 2]"] frame_round_trip [of "replicate 513 7" "[]"]
  by auto

section \<open>Backoff\<close>

text \<open>
  Claim C7. The delay before reconnection attempt \<open>k\<close> (counted from 1) is
  \<open>min (2 * 2 ^ (k - 1)) 60\<close> seconds; for the attempts 1 to 7 the formula gives
  2, 4, 8, 16, 32, 60, 60.
\<close>

theorem backoff_sequence:
  "1 \<le> k \<Longrightarrow>
     reconnect_delay k = min (2 * 2 ^ (k - 1)) 60
     \<and> map reconnect_delay [1, 2, 3, 4, 5, 6, 7] = [2, 4, 8, 16, 32, 60, 60]"
  by (simp add: reconnect_delay_def INITIAL_RECONNECT_DELAY_def RECONNECT_BACKOFF_FACTOR_def
      MAX_RECONNECT_DELAY_def power_int_def nat_diff_distrib)

theorem backoff_sequence_witness:
  "(1 :: nat) \<le> 6 \<and> reconnect_delay 6 = 60
   \<and> map reconnect_delay [1, 2, 3, 4, 5, 6, 7] = [2, 4, 8, 16, 32, 60, 60]"
  using backoff_sequence [of 6] by simp

section \<open>Deduplication\<close>

lemma cache_packet_dedup_fields:
  "last_packet_hash (cache_packet L now st b f) = last_packet_hash st
   \<and> last_packet_time (cache_packet L now st b f) = last_packet_time st"
  by (simp add: cache_packet_def split: option.splits)

lemma on_ble_packet_skipped_iff:
  "snd (on_ble_packet L t st p) = Skipped
   \<longleftrightarrow> (last_packet_hash st = Some (hash_bytes L p) \<and> t - last_packet_time st < 0.1)"
  by (auto simp: on_ble_packet_def Let_def split: sum.splits)

lemma on_ble_packet_delivered_fields:
  assumes "snd (on_ble_packet L t st p) = Broadcast frame"
  shows "last_packet_hash (fst (on_ble_packet L t st p)) = Some (hash_bytes L p)"
    and "last_packet_time (fst (on_ble_packet L t st p)) = t"
    and "create_tcp_frame p = Inr frame"
  using assms
  by (auto simp: on_ble_packet_def Let_def cache_packet_dedup_fields split: sum.splits if_splits)

lemma on_ble_packet_skip_state:
  "snd (on_ble_packet L t st b) = Skipped \<Longrightarrow> fst (on_ble_packet L t st b) = st"
  by (auto simp: on_ble_packet_def Let_def split: if_splits sum.splits)

lemma on_ble_packet_pass_previous:
  "snd (on_ble_packet L t st b) \<noteq> Skipped \<Longrightarrow>
     previous_delivery (fst (on_ble_packet L t st b)) = Some (hash_bytes L b, t)"
  by (auto simp: on_ble_packet_def Let_def previous_delivery_def cache_packet_dedup_fields
      split: if_splits sum.splits)

lemma on_ble_packet_skipped_previous:
  "snd (on_ble_packet L t st b) = Skipped \<longleftrightarrow>
     (case previous_delivery st of
        None \<Rightarrow> False
      | Some (h, t0) \<Rightarrow> hash_bytes L b = h \<and> t - t0 < 0.1)"
  unfolding on_ble_packet_skipped_iff
  by (cases "last_packet_hash st") (auto simp: previous_delivery_def)

lemma on_ble_packet_passed:
  assumes "snd (on_ble_packet L t st b) \<noteq> Skipped" and "length b \<le> 512"
  shows "snd (on_ble_packet L t st b) = Broadcast ([START1, START2] @ pack_H (length b) @ b)"
  using assms
  by (auto simp: on_ble_packet_def Let_def create_tcp_frame_ok split: if_splits)

lemma on_ble_packets_dedup:
  assumes "\<forall>a \<in> set ps. length (snd a) \<le> 512"
  shows "snd (on_ble_packets L s ps) =
           map (\<lambda>(dup, a). if dup then Skipped
                            else Broadcast ([START1, START2] @ pack_H (length (snd a)) @ snd a))
               (zip (spec_dedup L (previous_delivery s) ps) ps)"
  using assms
proof (induction ps arbitrary: s)
  case Nil
  then show ?case by simp
next
  case (Cons a ps)
  obtain t b where a: "a = (t, b)" by (cases a)
  have len: "length b \<le> 512" and rest: "\<forall>a \<in> set ps. length (snd a) \<le> 512"
    using Cons.prems by (simp_all add: a)
  let ?s1 = "fst (on_ble_packet L t s b)"
  note ih = Cons.IH [OF rest, of ?s1]
  show ?case
  proof (cases "snd (on_ble_packet L t s b) = Skipped")
    case True
    then have d: "(case previous_delivery s of None \<Rightarrow> False
                   | Some (h, t0) \<Rightarrow> hash_bytes L b = h \<and> t - t0 < 0.1)"
      unfolding on_ble_packet_skipped_previous .
    have s1: "?s1 = s" using True by (rule on_ble_packet_skip_state)
    show ?thesis
      using ih True d by (simp add: a split_beta Let_def s1)
  next
    case False
    then have d: "\<not> (case previous_delivery s of None \<Rightarrow> False
                   | Some (h, t0) \<Rightarrow> hash_bytes L b = h \<and> t - t0 < 0.1)"
      unfolding on_ble_packet_skipped_previous .
    have p: "previous_delivery ?s1 = Some (hash_bytes L b, t)"
      using False by (rule on_ble_packet_pass_previous)
    have o: "snd (on_ble_packet L t s b) = Broadcast ([START1, START2] @ pack_H (length b) @ b)"
      using False len by (rule on_ble_packet_passed)
    show ?thesis
      using ih d by (simp add: a split_beta Let_def p o)
  qed
qed

text \<open>
  Claim C6. Over a run of \<open>on_ble_packet\<close> on payloads of at most 512 bytes (a BLE
  characteristic holds no more), the packets skipped are exactly those that the rule of
  the specification drops, where the previous delivery is the last packet of the run
  that was not dropped, and every other packet is broadcast in its frame. For one
  packet, it is skipped exactly when its hash is the hash of the previous delivery and
  it arrives less than 0.1 s after it. So when a payload has been broadcast at time \<open>t\<close>,
  the same payload at \<open>t + 0.05\<close> is skipped, and at \<open>t + 0.15\<close> it is broadcast again.
\<close>

theorem dedup_window:
  assumes "\<forall>a \<in> set ps. length (snd a) \<le> 512"
    and "snd (on_ble_packet L t st p) = Broadcast frame"
  shows "snd (on_ble_packets L s ps) =
           map (\<lambda>(dup, a). if dup then Skipped
                            else Broadcast ([START1, START2] @ pack_H (length (snd a)) @ snd a))
               (zip (spec_dedup L (previous_delivery s) ps) ps)
         \<and> (snd (on_ble_packet L t' st' q) = Skipped
            \<longleftrightarrow> (last_packet_hash st' = Some (hash_bytes L q) \<and> t' - last_packet_time st' < 0.1))
         \<and> (snd (on_ble_packet L t' st' q) = Skipped \<longrightarrow> fst (on_ble_packet L t' st' q) = st')
         \<and> snd (on_ble_packet L (t + 0.05) (fst (on_ble_packet L t st p)) p) = Skipped
         \<and> snd (on_ble_packet L (t + 0.15) (fst (on_ble_packet L t st p)) p) = Broadcast frame"
proof -
  let ?st1 = "fst (on_ble_packet L t st p)"
  have h: "last_packet_hash ?st1 = Some (hash_bytes L p)" and tm: "last_packet_time ?st1 = t"
    and fr: "create_tcp_frame p = Inr frame"
    using on_ble_packet_delivered_fields [OF assms(2)] by auto
  have a: "snd (on_ble_packet L (t + 0.05) ?st1 p) = Skipped"
    unfolding on_ble_packet_skipped_iff using h tm by simp
  have "snd (on_ble_packet L (t + 0.15) ?st1 p) \<noteq> Skipped"
    unfolding on_ble_packet_skipped_iff using h tm by simp
  then have b: "snd (on_ble_packet L (t + 0.15) ?st1 p) = Broadcast frame"
    using fr by (auto simp: on_ble_packet_def Let_def split: if_splits)
  show ?thesis
    using a b on_ble_packet_skipped_iff on_ble_packet_skip_state
      on_ble_packets_dedup [OF assms(1)] by blast
qed

theorem dedup_window_witness:
  "length [5, 1 :: byte] \<le> 512
   \<and> snd (on_ble_packets demo_lib (init_bridge False 500)
        [(10, [5, 1]), (10.09, [5, 1]), (10.18, [5, 1])])
      = [Broadcast [0x94, 0xC3, 0, 2, 5, 1], Skipped, Broadcast [0x94, 0xC3, 0, 2, 5, 1]]
   \<and> snd (on_ble_packet demo_lib 10 (init_bridge False 500) [5, 1]) = Broadcast [0x94, 0xC3, 0, 2, 5, 1]
   \<and> snd (on_ble_packet demo_lib (10 + 0.05)
            (fst (on_ble_packet demo_lib 10 (init_bridge False 500) [5, 1])) [5, 1]) = Skipped
   \<and> snd (on_ble_packet demo_lib (10 + 0.15)
            (fst (on_ble_packet demo_lib 10 (init_bridge False 500) [5, 1])) [5, 1])
       = Broadcast [0x94, 0xC3, 0, 2, 5, 1]"
proof -
  let ?ps = "[(10, [5, 1]), (10.09, [5, 1]), (10.18, [5, 1])] :: (real \<times> bytes) list"
  have l: "\<forall>a \<in> set ?ps. length (snd a) \<le> 512" by simp
  have d: "snd (on_ble_packet demo_lib 10 (init_bridge False 500) [5, 1])
           = Broadcast [0x94, 0xC3, 0, 2, 5, 1]"
    by (simp add: on_ble_packet_def init_bridge_def create_tcp_frame_def MAX_PACKET_SIZE_def
        START1_def START2_def pack_H_def cache_packet_def Let_def)
  have p: "previous_delivery (init_bridge False 500) = None"
    by (simp add: previous_delivery_def init_bridge_def)
  have f: "spec_dedup demo_lib None ?ps = [False, True, False]"
    by simp
  note T = dedup_window [OF l d, of "init_bridge False 500"]
  have r: "snd (on_ble_packets demo_lib (init_bridge False 500) ?ps)
      = [Broadcast [0x94, 0xC3, 0, 2, 5, 1], Skipped, Broadcast [0x94, 0xC3, 0, 2, 5, 1]]"
    using T unfolding p f by (simp add: START1_def START2_def pack_H_def)
  show ?thesis
    using r d T by simp
qed

section \<open>Reconnection\<close>

lemma cache_packet_conn_fields:
  "reconnect_attempts (cache_packet L now st b f) = reconnect_attempts st
   \<and> running (cache_packet L now st b f) = running st
   \<and> ble_connected (cache_packet L now st b f) = ble_connected st
   \<and> is_reconnecting (cache_packet L now st b f) = is_reconnecting st
   \<and> ble_written (cache_packet L now st b f) = ble_written st
   \<and> cache_nodes (cache_packet L now st b f) = cache_nodes st
   \<and> max_cache_nodes (cache_packet L now st b f) = max_cache_nodes st"
  by (simp add: cache_packet_def split: option.splits)

lemma on_ble_packet_conn_fields:
  "reconnect_attempts (fst (on_ble_packet L t st b)) = reconnect_attempts st
   \<and> running (fst (on_ble_packet L t st b)) = running st
   \<and> ble_connected (fst (on_ble_packet L t st b)) = ble_connected st
   \<and> is_reconnecting (fst (on_ble_packet L t st b)) = is_reconnecting st
   \<and> ble_written (fst (on_ble_packet L t st b)) = ble_written st
   \<and> cache_nodes (fst (on_ble_packet L t st b)) = cache_nodes st
   \<and> max_cache_nodes (fst (on_ble_packet L t st b)) = max_cache_nodes st"
  by (simp add: on_ble_packet_def Let_def cache_packet_conn_fields split: sum.splits)

lemma on_ble_packets_conn_fields:
  "reconnect_attempts (fst (on_ble_packets L st ps)) = reconnect_attempts st
   \<and> running (fst (on_ble_packets L st ps)) = running st
   \<and> ble_connected (fst (on_ble_packets L st ps)) = ble_connected st
   \<and> is_reconnecting (fst (on_ble_packets L st ps)) = is_reconnecting st"
proof (induction ps arbitrary: st)
  case Nil
  then show ?case by simp
next
  case (Cons a ps)
  obtain t b where a: "a = (t, b)" by (cases a)
  show ?case
    using Cons.IH [of "fst (on_ble_packet L t st b)"] on_ble_packet_conn_fields [of L t st b]
    by (simp add: a split_beta Let_def)
qed

lemma prewarm_cache_conn_fields:
  "reconnect_attempts (prewarm_cache L c ps st) = reconnect_attempts st
   \<and> running (prewarm_cache L c ps st) = running st
   \<and> ble_connected (prewarm_cache L c ps st) = ble_connected st
   \<and> is_reconnecting (prewarm_cache L c ps st) = is_reconnecting st"
  by (auto simp: prewarm_cache_def Let_def send_to_ble_def on_ble_packets_conn_fields
      split: option.splits sum.splits if_splits)

lemma try_reconnect_fails_iff:
  "(\<exists>e. try_reconnect L a st = Inl e) \<longleftrightarrow> \<not> connect_ok a"
  by (auto simp: try_reconnect_def connect_ble_def split: sum.splits)

lemma try_reconnect_ok:
  assumes "try_reconnect L a st = Inr st1"
  shows "connect_ok a \<and> reconnect_attempts st1 = 0 \<and> running st1 = running st
         \<and> ble_connected st1 \<and> \<not> is_reconnecting st1"
  using assms
  by (auto simp: try_reconnect_def connect_ble_def prewarm_cache_conn_fields
      split: sum.splits if_splits)


lemma loop_stop:
  assumes "\<not> (reconnect_attempts st < MAX_RECONNECT_ATTEMPTS \<and> running st)"
  shows "reconnect_loop L env st = (st\<lparr>is_reconnecting := False\<rparr>, False, [])"
  using assms by (subst reconnect_loop.simps [of L env st]) auto

lemma loop_ok:
  assumes "reconnect_attempts st < MAX_RECONNECT_ATTEMPTS \<and> running st"
    and "try_reconnect L (env (Suc (reconnect_attempts st)))
           (st\<lparr>reconnect_attempts := Suc (reconnect_attempts st)\<rparr>) = Inr st1"
  shows "reconnect_loop L env st = (st1, True, [reconnect_delay (Suc (reconnect_attempts st))])"
  using assms by (subst reconnect_loop.simps [of L env st]) simp

lemma loop_last_fail:
  assumes "reconnect_attempts st < MAX_RECONNECT_ATTEMPTS \<and> running st"
    and "try_reconnect L (env (Suc (reconnect_attempts st)))
           (st\<lparr>reconnect_attempts := Suc (reconnect_attempts st)\<rparr>) = Inl e"
    and "Suc (reconnect_attempts st) \<ge> MAX_RECONNECT_ATTEMPTS"
  shows "reconnect_loop L env st =
           (st\<lparr>reconnect_attempts := Suc (reconnect_attempts st),
               ble_connected := False, is_reconnecting := False\<rparr>,
            False, [reconnect_delay (Suc (reconnect_attempts st))])"
  using assms by (subst reconnect_loop.simps [of L env st]) simp

lemma loop_fail_again:
  assumes "reconnect_attempts st < MAX_RECONNECT_ATTEMPTS \<and> running st"
    and "try_reconnect L (env (Suc (reconnect_attempts st)))
           (st\<lparr>reconnect_attempts := Suc (reconnect_attempts st)\<rparr>) = Inl e"
    and "\<not> Suc (reconnect_attempts st) \<ge> MAX_RECONNECT_ATTEMPTS"
    and "reconnect_loop L env
           (st\<lparr>reconnect_attempts := Suc (reconnect_attempts st), ble_connected := False\<rparr>) = r"
  shows "reconnect_loop L env st =
           (fst r, fst (snd r), reconnect_delay (Suc (reconnect_attempts st)) # snd (snd r))"
  using assms by (subst reconnect_loop.simps [of L env st]) (simp add: split_beta)

lemma reconnect_loop_length:
  "length (snd (snd (reconnect_loop L env st))) \<le> MAX_RECONNECT_ATTEMPTS - reconnect_attempts st"
proof (induction L env st rule: reconnect_loop.induct)
  case (1 L env st)
  let ?n = "reconnect_attempts st"
  show ?case
  proof (cases "?n < MAX_RECONNECT_ATTEMPTS \<and> running st")
    case False
    then show ?thesis by (simp add: loop_stop)
  next
    case c: True
    show ?thesis
    proof (cases "try_reconnect L (env (Suc ?n)) (st\<lparr>reconnect_attempts := Suc ?n\<rparr>)")
      case (Inr st1)
      then show ?thesis using c by (auto simp: loop_ok [where L = L and env = env and st = st, OF c Inr])
    next
      case (Inl e)
      show ?thesis
      proof (cases "Suc ?n \<ge> MAX_RECONNECT_ATTEMPTS")
        case True
        then show ?thesis using c by (auto simp: loop_last_fail [where L = L and env = env and st = st, OF c Inl True])
      next
        case False
        have ih: "length (snd (snd (reconnect_loop L env
                    (st\<lparr>reconnect_attempts := Suc ?n, ble_connected := False\<rparr>))))
                  \<le> MAX_RECONNECT_ATTEMPTS - Suc ?n"
          using "1.IH" [OF c Inl False] by simp
        show ?thesis
          using ih False by (auto simp: loop_fail_again [where L = L and env = env and st = st, OF c Inl False refl])
      qed
    qed
  qed
qed

lemma reconnect_loop_all_fail:
  assumes "running st" and "reconnect_attempts st < MAX_RECONNECT_ATTEMPTS"
    and "\<And>k. reconnect_attempts st < k \<Longrightarrow> k \<le> MAX_RECONNECT_ATTEMPTS \<Longrightarrow> \<not> connect_ok (env k)"
  shows "reconnect_loop L env st =
           (st\<lparr>reconnect_attempts := MAX_RECONNECT_ATTEMPTS, ble_connected := False,
               is_reconnecting := False\<rparr>,
            False,
            map reconnect_delay [Suc (reconnect_attempts st) ..< Suc MAX_RECONNECT_ATTEMPTS])"
  using assms
proof (induction L env st rule: reconnect_loop.induct)
  case (1 L env st)
  let ?n = "reconnect_attempts st"
  have c: "?n < MAX_RECONNECT_ATTEMPTS \<and> running st" using "1.prems" by simp
  have "\<not> connect_ok (env (Suc ?n))" using "1.prems" by simp
  then obtain e where Inl: "try_reconnect L (env (Suc ?n)) (st\<lparr>reconnect_attempts := Suc ?n\<rparr>) = Inl e"
    using try_reconnect_fails_iff by blast
  show ?case
  proof (cases "Suc ?n \<ge> MAX_RECONNECT_ATTEMPTS")
    case True
    then have eq: "Suc ?n = MAX_RECONNECT_ATTEMPTS" using c by simp
    have l: "[Suc ?n ..< Suc MAX_RECONNECT_ATTEMPTS] = [Suc ?n]"
      by (simp add: eq [symmetric])
    show ?thesis
      unfolding loop_last_fail [where L = L and env = env and st = st, OF c Inl True] l by (simp add: eq)
  next
    case False
    let ?st' = "st\<lparr>reconnect_attempts := Suc ?n, ble_connected := False\<rparr>"
    have ih: "reconnect_loop L env ?st' =
           (?st'\<lparr>reconnect_attempts := MAX_RECONNECT_ATTEMPTS, ble_connected := False,
               is_reconnecting := False\<rparr>,
            False,
            map reconnect_delay [Suc (Suc ?n) ..< Suc MAX_RECONNECT_ATTEMPTS])"
      using "1.IH" [OF c Inl False] "1.prems" False by simp
    have l: "[Suc ?n ..< Suc MAX_RECONNECT_ATTEMPTS] = Suc ?n # [Suc (Suc ?n) ..< Suc MAX_RECONNECT_ATTEMPTS]"
      using False by (simp add: upt_conv_Cons)
    show ?thesis
      unfolding loop_fail_again [where L = L and env = env and st = st, OF c Inl False ih] l by simp
  qed
qed

lemma reconnect_loop_success:
  assumes "fst (snd (reconnect_loop L env st))"
  shows "reconnect_attempts (fst (reconnect_loop L env st)) = 0
         \<and> running (fst (reconnect_loop L env st))
         \<and> ble_connected (fst (reconnect_loop L env st))
         \<and> \<not> is_reconnecting (fst (reconnect_loop L env st))"
  using assms
proof (induction L env st rule: reconnect_loop.induct)
  case (1 L env st)
  let ?n = "reconnect_attempts st"
  show ?case
  proof (cases "?n < MAX_RECONNECT_ATTEMPTS \<and> running st")
    case False
    then show ?thesis using "1.prems" by (simp add: loop_stop)
  next
    case c: True
    show ?thesis
    proof (cases "try_reconnect L (env (Suc ?n)) (st\<lparr>reconnect_attempts := Suc ?n\<rparr>)")
      case (Inr st1)
      show ?thesis using try_reconnect_ok [OF Inr] c by (simp add: loop_ok [where L = L and env = env and st = st, OF c Inr])
    next
      case (Inl e)
      show ?thesis
      proof (cases "Suc ?n \<ge> MAX_RECONNECT_ATTEMPTS")
        case True
        then show ?thesis using "1.prems" by (simp add: loop_last_fail [where L = L and env = env and st = st, OF c Inl True])
      next
        case False
        let ?st' = "st\<lparr>reconnect_attempts := Suc ?n, ble_connected := False\<rparr>"
        note r = loop_fail_again [where L = L and env = env and st = st, OF c Inl False refl]
        have "fst (snd (reconnect_loop L env ?st'))" using "1.prems" by (simp add: r)
        then show ?thesis using "1.IH" [OF c Inl False] by (simp add: r)
      qed
    qed
  qed
qed

lemma reconnect_loop_succeeds:
  assumes "running st" and "reconnect_attempts st < k" and "k \<le> MAX_RECONNECT_ATTEMPTS"
    and "connect_ok (env k)"
  shows "fst (snd (reconnect_loop L env st))"
  using assms
proof (induction L env st rule: reconnect_loop.induct)
  case (1 L env st)
  let ?n = "reconnect_attempts st"
  have c: "?n < MAX_RECONNECT_ATTEMPTS \<and> running st" using "1.prems" by simp
  show ?case
  proof (cases "try_reconnect L (env (Suc ?n)) (st\<lparr>reconnect_attempts := Suc ?n\<rparr>)")
    case (Inr st1)
    then show ?thesis by (simp add: loop_ok [where L = L and env = env and st = st, OF c Inr])
  next
    case (Inl e)
    then have nk: "\<not> connect_ok (env (Suc ?n))" using try_reconnect_fails_iff by blast
    then have "Suc ?n \<noteq> k" using "1.prems" by auto
    then have lt: "Suc ?n < k" using "1.prems" by simp
    then have nl: "\<not> Suc ?n \<ge> MAX_RECONNECT_ATTEMPTS" using "1.prems" by simp
    let ?st' = "st\<lparr>reconnect_attempts := Suc ?n, ble_connected := False\<rparr>"
    have "fst (snd (reconnect_loop L env ?st'))"
      using "1.IH" [OF c Inl nl] "1.prems" lt by simp
    then show ?thesis
      by (simp add: loop_fail_again [where L = L and env = env and st = st, OF c Inl nl refl])
  qed
qed

text \<open>
  The first loss of the transport, with one poll task running: when the poll loop finds
  the connection lost (attempt counter at zero, bridge running, no reconnection under
  way), \<open>attempt_reconnection\<close> makes at most 5 attempts. If all 5 fail, the poll loop
  clears \<open>running\<close> and the process exits with status 1, after delays of 2, 4, 8, 16 and
  32 seconds. If one of them succeeds, the counter is back at zero, the device is
  connected and the loop keeps polling.
\<close>

lemma reconnect_exhaustion:
  assumes "reconnect_attempts st = 0" and "running st" and "\<not> is_reconnecting st"
  shows "length (snd (snd (attempt_reconnection L env st))) \<le> 5
         \<and> ((\<forall>k \<in> {1..5}. \<not> connect_ok (env k)) \<longrightarrow>
              poll_connection_lost L env st =
                (st\<lparr>reconnect_attempts := 5, ble_connected := False,
                    is_reconnecting := False, running := False\<rparr>,
                 ProcessExit 1, [2, 4, 8, 16, 32])
              \<and> ProcessExit 1 \<noteq> ProcessExit 0)
         \<and> ((\<exists>k \<in> {1..5}. connect_ok (env k)) \<longrightarrow>
              fst (snd (poll_connection_lost L env st)) = KeepPolling
              \<and> reconnect_attempts (fst (poll_connection_lost L env st)) = 0
              \<and> running (fst (poll_connection_lost L env st))
              \<and> ble_connected (fst (poll_connection_lost L env st))
              \<and> \<not> is_reconnecting (fst (poll_connection_lost L env st)))"
proof (intro conjI impI)
  let ?st = "st\<lparr>is_reconnecting := True\<rparr>"
  have ar: "attempt_reconnection L env st = reconnect_loop L env ?st"
    using assms by (simp add: attempt_reconnection_def)
  have n0: "reconnect_attempts ?st = 0" and run: "running ?st"
    using assms by simp_all
  show "length (snd (snd (attempt_reconnection L env st))) \<le> 5"
    using reconnect_loop_length [of L env ?st] by (simp add: ar n0 MAX_RECONNECT_ATTEMPTS_def)
  {
    assume fail: "\<forall>k \<in> {1..5}. \<not> connect_ok (env k)"
    have "reconnect_loop L env ?st =
           (?st\<lparr>reconnect_attempts := MAX_RECONNECT_ATTEMPTS, ble_connected := False,
               is_reconnecting := False\<rparr>,
            False,
            map reconnect_delay [Suc (reconnect_attempts ?st) ..< Suc MAX_RECONNECT_ATTEMPTS])"
      using fail n0 by (intro reconnect_loop_all_fail run) (simp_all add: MAX_RECONNECT_ATTEMPTS_def)
    moreover have "[Suc 0 ..< Suc 5] = [1, 2, 3, 4, 5]"
      by (simp add: upt_conv_Cons)
    moreover have "map reconnect_delay [1, 2, 3, 4, 5] = [2, 4, 8, 16, 32]"
      by (simp add: reconnect_delay_def INITIAL_RECONNECT_DELAY_def RECONNECT_BACKOFF_FACTOR_def
          MAX_RECONNECT_DELAY_def)
    ultimately show "poll_connection_lost L env st =
                (st\<lparr>reconnect_attempts := 5, ble_connected := False,
                    is_reconnecting := False, running := False\<rparr>,
                 ProcessExit 1, [2, 4, 8, 16, 32])"
      by (simp add: poll_connection_lost_def ar n0 MAX_RECONNECT_ATTEMPTS_def)
    show "ProcessExit 1 \<noteq> ProcessExit 0" by simp
  }
  {
    assume "\<exists>k \<in> {1..5}. connect_ok (env k)"
    then obtain k where k: "1 \<le> k" "k \<le> 5" "connect_ok (env k)" by auto
    have ok: "fst (snd (reconnect_loop L env ?st))"
      using k n0 by (intro reconnect_loop_succeeds [where k = k] run)
        (simp_all add: MAX_RECONNECT_ATTEMPTS_def)
    note props = reconnect_loop_success [OF ok]
    have p: "poll_connection_lost L env st =
             (fst (reconnect_loop L env ?st), KeepPolling, snd (snd (reconnect_loop L env ?st)))"
      using ok by (simp add: poll_connection_lost_def ar split_beta)
    show "fst (snd (poll_connection_lost L env st)) = KeepPolling" by (simp add: p)
    show "reconnect_attempts (fst (poll_connection_lost L env st)) = 0" using props by (simp add: p)
    show "running (fst (poll_connection_lost L env st))" using props by (simp add: p)
    show "ble_connected (fst (poll_connection_lost L env st))" using props by (simp add: p)
    show "\<not> is_reconnecting (fst (poll_connection_lost L env st))" using props by (simp add: p)
  }
qed

lemma reconnect_exhaustion_example:
  "reconnect_attempts ((init_bridge False 500)\<lparr>running := True\<rparr>) = 0
   \<and> running ((init_bridge False 500)\<lparr>running := True\<rparr>)
   \<and> \<not> is_reconnecting ((init_bridge False 500)\<lparr>running := True\<rparr>)
   \<and> fst (snd (poll_connection_lost demo_lib
        (\<lambda>k. \<lparr>connect_ok = False, prewarm_id = 1, prewarm_arrivals = []\<rparr>)
        ((init_bridge False 500)\<lparr>running := True\<rparr>))) = ProcessExit 1
   \<and> snd (snd (poll_connection_lost demo_lib
        (\<lambda>k. \<lparr>connect_ok = False, prewarm_id = 1, prewarm_arrivals = []\<rparr>)
        ((init_bridge False 500)\<lparr>running := True\<rparr>))) = [2, 4, 8, 16, 32]
   \<and> \<not> running (fst (poll_connection_lost demo_lib
        (\<lambda>k. \<lparr>connect_ok = False, prewarm_id = 1, prewarm_arrivals = []\<rparr>)
        ((init_bridge False 500)\<lparr>running := True\<rparr>)))
   \<and> fst (snd (poll_connection_lost demo_lib
        (\<lambda>k. \<lparr>connect_ok = (k = 3), prewarm_id = 1, prewarm_arrivals = []\<rparr>)
        ((init_bridge False 500)\<lparr>running := True\<rparr>))) = KeepPolling
   \<and> reconnect_attempts (fst (poll_connection_lost demo_lib
        (\<lambda>k. \<lparr>connect_ok = (k = 3), prewarm_id = 1, prewarm_arrivals = []\<rparr>)
        ((init_bridge False 500)\<lparr>running := True\<rparr>))) = 0"
proof -
  let ?st = "(init_bridge False 500)\<lparr>running := True\<rparr>"
  have h: "reconnect_attempts ?st = 0" "running ?st" "\<not> is_reconnecting ?st"
    by (simp_all add: init_bridge_def)
  have e: "\<exists>k \<in> {1..5}. connect_ok \<lparr>connect_ok = (k = (3::nat)), prewarm_id = 1, prewarm_arrivals = []\<rparr>"
    by (rule bexI [of _ 3]) simp_all
  show ?thesis
    using h e
      reconnect_exhaustion [OF h, of demo_lib "\<lambda>k. \<lparr>connect_ok = False, prewarm_id = 1, prewarm_arrivals = []\<rparr>"]
      reconnect_exhaustion [OF h, of demo_lib "\<lambda>k. \<lparr>connect_ok = (k = 3), prewarm_id = 1, prewarm_arrivals = []\<rparr>"]
    by simp
qed

subsection \<open>The second loss of the transport\<close>

lemma cache_packet_poll_tasks:
  "poll_tasks (cache_packet L now st b f) = poll_tasks st"
  by (simp add: cache_packet_def split: option.splits)

lemma on_ble_packets_poll_tasks:
  "poll_tasks (fst (on_ble_packets L st ps)) = poll_tasks st"
proof (induction ps arbitrary: st)
  case Nil
  then show ?case by simp
next
  case (Cons a ps)
  obtain t b where a: "a = (t, b)" by (cases a)
  have "poll_tasks (fst (on_ble_packet L t st b)) = poll_tasks st"
    by (simp add: on_ble_packet_def Let_def cache_packet_poll_tasks split: sum.splits)
  then show ?case
    using Cons.IH [of "fst (on_ble_packet L t st b)"] by (simp add: a split_beta Let_def)
qed

lemma prewarm_cache_poll_tasks:
  "poll_tasks (prewarm_cache L c ps st) = poll_tasks st"
  by (auto simp: prewarm_cache_def Let_def send_to_ble_def on_ble_packets_poll_tasks
      split: option.splits sum.splits if_splits)

lemma try_reconnect_poll_tasks:
  assumes "try_reconnect L a st = Inr st1"
  shows "poll_tasks st1 = Suc (poll_tasks st)"
  using assms
  by (auto simp: try_reconnect_def connect_ble_def prewarm_cache_poll_tasks
      split: sum.splits if_splits)

lemma run_poll_loop_spins:
  assumes "running st" and "\<not> ble_connected st" and "is_reconnecting st"
  shows "run_poll_loop st = None"
proof -
  have "\<not> (running s \<and> \<not> ble_connected s \<and> is_reconnecting s)"
    if "run_poll_loop s = Some y" for s y
    by (rule run_poll_loop.raw_induct [OF _ that]) (auto split: if_splits)
  then show ?thesis using assms by (cases "run_poll_loop st") auto
qed

lemma run_poll_loop_backoff:
  assumes "running st" and "\<not> ble_connected st" and "\<not> is_reconnecting st"
    and "reconnect_attempts st < MAX_RECONNECT_ATTEMPTS"
  shows "run_poll_loop st =
           Some (st\<lparr>is_reconnecting := True, reconnect_attempts := Suc (reconnect_attempts st)\<rparr>,
                 AwaitBackoff (reconnect_delay (Suc (reconnect_attempts st))))"
  using assms by (subst run_poll_loop.simps) simp

text \<open>
  Claim C8. What the claim says holds at the first loss of the transport, when one poll
  task runs (lemma \<open>reconnect_exhaustion\<close>). It fails at the next loss. A reconnection
  that succeeds creates a second poll task beside the one that made it. When the
  transport is lost again, the task that notices first sets \<open>is_reconnecting\<close> and
  suspends in the first backoff sleep; the other task then finds the device not
  connected and \<open>is_reconnecting\<close> set, gets \<^verbatim>\<open>True\<close> from \<^verbatim>\<open>attempt_reconnection\<close> at once
  and loops without ever suspending. The event loop never runs another task again: the
  backoff sleep never ends, no reconnection attempt is made and the process does not
  exit.

  In the theorem, \<open>st\<close> is the bridge at the first loss, with one poll task, and the
  first attempt succeeds: the poll loop keeps polling and there are two poll tasks.
  With the transport lost again, a poll task that starts a turn of its loop reaches the
  backoff sleep of 2 seconds in a state \<open>s\<close> (one attempt counted, \<open>is_reconnecting\<close> set,
  bridge running, device not connected), and a poll task that starts a turn of its loop
  in \<open>s\<close> never reaches a point where it suspends or ends.
\<close>

theorem second_loss_never_exits:
  assumes "running st" and "\<not> ble_connected st" and "\<not> is_reconnecting st"
    and "reconnect_attempts st = 0" and "poll_tasks st = 1" and "connect_ok (env 1)"
  shows "fst (snd (poll_connection_lost L env st)) = KeepPolling
         \<and> poll_tasks (fst (poll_connection_lost L env st)) = 2
         \<and> running (fst (poll_connection_lost L env st))
         \<and> ble_connected (fst (poll_connection_lost L env st))
         \<and> (\<exists>s. run_poll_loop ((fst (poll_connection_lost L env st))\<lparr>ble_connected := False\<rparr>)
                   = Some (s, AwaitBackoff 2)
                \<and> reconnect_attempts s = 1 \<and> is_reconnecting s \<and> running s
                \<and> \<not> ble_connected s
                \<and> run_poll_loop s = None)"
proof -
  let ?st = "st\<lparr>is_reconnecting := True\<rparr>"
  let ?a = "st\<lparr>is_reconnecting := True, reconnect_attempts := Suc 0\<rparr>"
  have c: "reconnect_attempts ?st < MAX_RECONNECT_ATTEMPTS \<and> running ?st"
    using assms by (simp add: MAX_RECONNECT_ATTEMPTS_def)
  obtain st1 where t: "try_reconnect L (env (Suc (reconnect_attempts ?st)))
                         (?st\<lparr>reconnect_attempts := Suc (reconnect_attempts ?st)\<rparr>) = Inr st1"
    using assms(4,6) try_reconnect_fails_iff [of L "env 1" ?a]
    by (cases "try_reconnect L (env 1) ?a") auto
  have loop: "reconnect_loop L env ?st = (st1, True, [reconnect_delay (Suc (reconnect_attempts ?st))])"
    using loop_ok [where L = L and env = env and st = ?st, OF c t] .
  have p: "poll_connection_lost L env st = (st1, KeepPolling, [reconnect_delay 1])"
    using assms(3,4) loop by (simp add: poll_connection_lost_def attempt_reconnection_def)
  note ok = try_reconnect_ok [OF t]
  have pt: "poll_tasks st1 = 2"
    using try_reconnect_poll_tasks [OF t] assms(5) by simp
  let ?lost = "st1\<lparr>ble_connected := False\<rparr>"
  let ?s = "?lost\<lparr>is_reconnecting := True, reconnect_attempts := Suc (reconnect_attempts ?lost)\<rparr>"
  have d: "reconnect_delay (Suc 0) = 2"
    by (simp add: reconnect_delay_def INITIAL_RECONNECT_DELAY_def RECONNECT_BACKOFF_FACTOR_def
        MAX_RECONNECT_DELAY_def)
  have b: "run_poll_loop ?lost = Some (?s, AwaitBackoff 2)"
    using run_poll_loop_backoff [of ?lost] ok assms(1) by (simp add: MAX_RECONNECT_ATTEMPTS_def d)
  have sp: "run_poll_loop ?s = None"
    using ok assms(1) by (intro run_poll_loop_spins) simp_all
  have props: "reconnect_attempts ?s = 1 \<and> is_reconnecting ?s \<and> running ?s \<and> \<not> ble_connected ?s"
    using ok assms(1) by simp
  show ?thesis
    unfolding p using ok assms(1) pt b sp props by (auto simp del: One_nat_def)
qed

theorem second_loss_never_exits_witness:
  "running ((init_bridge False 500)\<lparr>running := True, poll_tasks := 1\<rparr>)
   \<and> \<not> ble_connected ((init_bridge False 500)\<lparr>running := True, poll_tasks := 1\<rparr>)
   \<and> \<not> is_reconnecting ((init_bridge False 500)\<lparr>running := True, poll_tasks := 1\<rparr>)
   \<and> reconnect_attempts ((init_bridge False 500)\<lparr>running := True, poll_tasks := 1\<rparr>) = 0
   \<and> poll_tasks ((init_bridge False 500)\<lparr>running := True, poll_tasks := 1\<rparr>) = 1
   \<and> fst (snd (poll_connection_lost demo_lib
         (\<lambda>k. \<lparr>connect_ok = True, prewarm_id = 1, prewarm_arrivals = []\<rparr>)
         ((init_bridge False 500)\<lparr>running := True, poll_tasks := 1\<rparr>))) = KeepPolling
   \<and> poll_tasks (fst (poll_connection_lost demo_lib
         (\<lambda>k. \<lparr>connect_ok = True, prewarm_id = 1, prewarm_arrivals = []\<rparr>)
         ((init_bridge False 500)\<lparr>running := True, poll_tasks := 1\<rparr>))) = 2
   \<and> (\<exists>s. run_poll_loop ((fst (poll_connection_lost demo_lib
                (\<lambda>k. \<lparr>connect_ok = True, prewarm_id = 1, prewarm_arrivals = []\<rparr>)
                ((init_bridge False 500)\<lparr>running := True, poll_tasks := 1\<rparr>)))\<lparr>ble_connected := False\<rparr>)
              = Some (s, AwaitBackoff 2)
          \<and> run_poll_loop s = None)"
proof -
  let ?st = "(init_bridge False 500)\<lparr>running := True, poll_tasks := 1\<rparr>"
  let ?env = "\<lambda>k :: nat. \<lparr>connect_ok = True, prewarm_id = 1, prewarm_arrivals = []\<rparr>"
  have h: "running ?st" "\<not> ble_connected ?st" "\<not> is_reconnecting ?st"
    "reconnect_attempts ?st = 0" "poll_tasks ?st = 1" "connect_ok (?env 1)"
    by (simp_all add: init_bridge_def)
  show ?thesis
    using second_loss_never_exits [where L = demo_lib and env = ?env and st = ?st, OF h] h(1-5)
    by blast
qed

section \<open>Cache size limit\<close>

lemma on_ble_packet_broadcast:
  assumes "snd (on_ble_packet L t st b) = Broadcast f"
  shows "fst (on_ble_packet L t st b)
         = cache_packet L t (st\<lparr>last_packet_hash := Some (hash_bytes L b), last_packet_time := t\<rparr>) b f"
  using assms by (auto simp: on_ble_packet_def Let_def split: if_splits sum.splits)

lemma remove_oldest_nodes_others:
  "filter (\<lambda>(proto, _). \<not> has_node_info L proto) (remove_oldest_nodes L k r xs)
   = filter (\<lambda>(proto, _). \<not> has_node_info L proto) xs"
  by (induction L k r xs rule: remove_oldest_nodes.induct) auto

lemma remove_oldest_nodes_nodes:
  "filter (\<lambda>(proto, _). has_node_info L proto) (remove_oldest_nodes L k r xs)
   = drop (nat (k - r)) (filter (\<lambda>(proto, _). has_node_info L proto) xs)"
proof (induction L k r xs rule: remove_oldest_nodes.induct)
  case (1 L k r)
  then show ?case by simp
next
  case (2 L k r proto frame rest)
  show ?case
  proof (cases "has_node_info L proto")
    case False
    then show ?thesis using 2 by simp
  next
    case node: True
    show ?thesis
    proof (cases "r < k")
      case True
      then have "nat (k - r) = Suc (nat (k - (r + 1)))" by simp
      then show ?thesis using 2 node True by simp
    next
      case False
      then have "nat (k - r) = 0" by simp
      then show ?thesis using 2 node False by simp
    qed
  qed
qed

lemma remove_oldest_nodes_snoc:
  "\<not> has_node_info L proto \<Longrightarrow>
   remove_oldest_nodes L k r (xs @ [(proto, frame)]) = remove_oldest_nodes L k r xs @ [(proto, frame)]"
  by (induction L k r xs rule: remove_oldest_nodes.induct) auto

lemma count_nodes_snoc:
  "\<not> has_node_info L proto \<Longrightarrow> count_nodes L (xs @ [(proto, frame)]) = count_nodes L xs"
  by (simp add: count_nodes_def)

lemma enforce_cache_limit_snoc:
  assumes "\<not> has_node_info L proto"
  shows "enforce_cache_limit L cap (xs @ [(proto, frame)])
         = enforce_cache_limit L cap xs @ [(proto, frame)]"
  using assms
  by (simp add: enforce_cache_limit_def Let_def count_nodes_snoc remove_oldest_nodes_snoc)

lemma enforce_cache_limit_nodes:
  "filter (\<lambda>(proto, _). has_node_info L proto) (enforce_cache_limit L cap xs)
   = drop (nat (count_nodes L xs - cap)) (filter (\<lambda>(proto, _). has_node_info L proto) xs)"
  by (simp add: enforce_cache_limit_def Let_def remove_oldest_nodes_nodes)

lemma enforce_cache_limit_others:
  "filter (\<lambda>(proto, _). \<not> has_node_info L proto) (enforce_cache_limit L cap xs)
   = filter (\<lambda>(proto, _). \<not> has_node_info L proto) xs"
  by (simp add: enforce_cache_limit_def Let_def remove_oldest_nodes_others)

lemma completion_not_node:
  assumes "parse_from_radio L b = Some m" and "get_config_complete_id m = Some c"
  shows "\<not> has_node_info L b"
  using assms
  by (auto simp: has_node_info_def get_config_complete_id_def get_node_info_def
      split: payload_variant.splits)

lemma cache_packet_completion:
  assumes "config_cache st = Some xs" and "recording_config st" and "current_config_id st = Some c"
    and "parse_from_radio L b = Some m" and "get_config_complete_id m = Some c"
  shows "cache_packet L now st b f =
           st\<lparr>config_cache := Some (enforce_cache_limit L (max_cache_nodes st) xs @ [(b, f)]),
              config_cache_complete := True, recording_config := False\<rparr>"
  using assms enforce_cache_limit_snoc [OF completion_not_node [OF assms(4,5)]]
  by (simp add: cache_packet_def)

lemma cache_packet_recording:
  assumes "config_cache st = Some xs" and "recording_config st"
    and "parse_from_radio L b = Some m" and "get_config_complete_id m = None"
  shows "cache_packet L now st b f = st\<lparr>config_cache := Some (xs @ [(b, f)])\<rparr>"
  using assms by (simp add: cache_packet_def)

lemma demo_node_parses:
  "parse_from_radio demo_lib (demo_node k) =
     Some \<lparr>fr_id = 0, payload_variant = NodeInfo
       \<lparr>num = unat (of_nat (k div 256) :: byte) * 256 + unat (of_nat (k mod 256) :: byte),
        user = None, position = None, device_metrics = None, last_heard = 0, node_rest = []\<rparr>\<rparr>"
  by (simp add: demo_lib_def demo_parse_from_radio_def demo_node_def demo_unopt_def)

lemma demo_node_has_node_info: "has_node_info demo_lib (demo_node k)"
  by (simp add: has_node_info_def demo_node_parses get_node_info_def)






lemma demo_node_num:
  assumes "k < 65536"
  shows "parse_from_radio demo_lib (demo_node k) =
     Some \<lparr>fr_id = 0, payload_variant = NodeInfo
       \<lparr>num = k, user = None, position = None, device_metrics = None, last_heard = 0,
        node_rest = []\<rparr>\<rparr>"
proof -
  have hi: "unat (of_nat (k div 256) :: byte) = k div 256"
    using assms by (simp add: unat_of_nat)
  have lo: "unat (of_nat (k mod 256) :: byte) = k mod 256"
    by (simp add: unat_of_nat)
  show ?thesis
    by (simp add: demo_node_parses hi lo)
qed








lemma demo_entries_nodes:
  "filter (\<lambda>(proto, _). has_node_info demo_lib proto) (demo_entries i j) = demo_entries i j"
  by (simp add: demo_entries_def demo_entry_def demo_node_has_node_info filter_map o_def)






section \<open>Completed caches stay completed\<close>

lemma find_node_Some:
  "find_node L n ys = Some i \<Longrightarrow>
     i < length ys \<and> is_node_entry L n (fst (ys ! i))
     \<and> (\<forall>j < i. \<not> is_node_entry L n (fst (ys ! j)))"
proof (induction ys arbitrary: i)
  case Nil
  then show ?case by simp
next
  case (Cons a ys)
  obtain p f where a: "a = (p, f)" by (cases a)
  show ?case
  proof (cases "is_node_entry L n p")
    case True
    then show ?thesis using Cons.prems by (simp add: a)
  next
    case False
    then obtain i' where i': "find_node L n ys = Some i'" "i = Suc i'"
      using Cons.prems by (auto simp: a)
    have ih: "i' < length ys \<and> is_node_entry L n (fst (ys ! i'))
              \<and> (\<forall>j < i'. \<not> is_node_entry L n (fst (ys ! j)))"
      using Cons.IH [OF i'(1)] .
    show ?thesis
      using ih False by (auto simp: a i'(2) less_Suc_eq_0_disj)
  qed
qed

lemma find_node_None:
  "find_node L n ys = None \<longleftrightarrow> (\<forall>e \<in> set ys. \<not> is_node_entry L n (fst e))"
  by (induction ys) (auto split: if_splits)

lemma refresh_first_Some:
  "refresh_first L now ut n pl ys = Some (i, e) \<Longrightarrow>
     i < length ys \<and> refresh_entry L now ut n pl (fst (ys ! i)) = Some e
     \<and> (\<forall>j < i. refresh_entry L now ut n pl (fst (ys ! j)) = None)"
proof (induction ys arbitrary: i)
  case Nil
  then show ?case by simp
next
  case (Cons a ys)
  obtain p f where a: "a = (p, f)" by (cases a)
  show ?case
  proof (cases "refresh_entry L now ut n pl p")
    case (Some e')
    then show ?thesis using Cons.prems by (simp add: a)
  next
    case None
    then obtain i' where i': "refresh_first L now ut n pl ys = Some (i', e)" "i = Suc i'"
      using Cons.prems by (auto simp: a)
    have ih: "i' < length ys \<and> refresh_entry L now ut n pl (fst (ys ! i')) = Some e
              \<and> (\<forall>j < i'. refresh_entry L now ut n pl (fst (ys ! j)) = None)"
      using Cons.IH [OF i'(1)] .
    show ?thesis
      using ih None by (auto simp: a i'(2) less_Suc_eq_0_disj)
  qed
qed

lemma refresh_entry_Some_node:
  "refresh_entry L now ut n pl p = Some e \<Longrightarrow> is_node_entry L n p"
  by (auto simp: refresh_entry_def is_node_entry_def split: option.splits if_splits)

lemma refresh_first_None:
  "(\<forall>e \<in> set ys. \<not> is_node_entry L n (fst e)) \<Longrightarrow> refresh_first L now ut n pl ys = None"
proof (induction ys)
  case Nil
  then show ?case by simp
next
  case (Cons a ys)
  obtain p f where a: "a = (p, f)" by (cases a)
  have "refresh_entry L now ut n pl p = None"
    using Cons.prems refresh_entry_Some_node [of L now ut n pl p] by (cases "refresh_entry L now ut n pl p") (auto simp: a)
  then show ?case using Cons by (simp add: a)
qed

lemma last_update_butlast:
  "i < length (butlast xs) \<Longrightarrow> last (xs[i := e]) = last xs \<and> xs[i := e] \<noteq> []
     \<and> length (xs[i := e]) = length xs"
  by (cases "xs = []") (auto simp: last_list_update)

lemma insert_before_last_props:
  "xs \<noteq> [] \<Longrightarrow> last (insert_before_last e xs) = last xs \<and> insert_before_last e xs \<noteq> []
     \<and> length (insert_before_last e xs) = Suc (length xs)
     \<and> butlast (insert_before_last e xs) = butlast xs @ [e]"
  by (simp add: insert_before_last_def butlast_append)

lemma update_node_info_last:
  "xs \<noteq> [] \<Longrightarrow> last (update_node_info L n e xs) = last xs \<and> update_node_info L n e xs \<noteq> []"
  using find_node_Some [of L n "butlast xs"] last_update_butlast [of _ xs e]
    insert_before_last_props [of xs e]
  by (auto simp: update_node_info_def split: option.splits)

lemma update_from_packet_last:
  "xs \<noteq> [] \<Longrightarrow> last (update_from_packet L now pkt xs) = last xs \<and> update_from_packet L now pkt xs \<noteq> []"
  using refresh_first_Some [of L now _ _ _ "butlast xs"] last_update_butlast [of _ xs]
  by (auto simp: update_from_packet_def split: option.splits)

lemma cache_packet_completed_last:
  assumes "cache_completed L st" and "config_cache st = Some xs"
  shows "\<exists>ys. config_cache (cache_packet L now st b f) = Some ys \<and> ys \<noteq> [] \<and> last ys = last xs
              \<and> config_cache_complete (cache_packet L now st b f)
              \<and> \<not> recording_config (cache_packet L now st b f)"
  using assms update_node_info_last [of xs L _ "(b, f)"] update_from_packet_last [of xs L now]
  by (auto simp: cache_packet_def cache_completed_def split: option.splits)

lemma cache_packet_ok:
  assumes "cache_ok L st"
  shows "cache_ok L (cache_packet L now st b f)"
proof (cases "config_cache_complete st")
  case True
  then have c: "cache_completed L st" using assms by (simp add: cache_ok_def)
  then obtain xs where xs: "config_cache st = Some xs" "is_completion_entry L (last xs)"
    by (auto simp: cache_completed_def split: option.splits)
  show ?thesis
    using cache_packet_completed_last [OF c xs(1), of now b f] xs(2)
    by (auto simp: cache_ok_def cache_completed_def)
next
  case False
  show ?thesis
  proof (cases "config_cache_complete (cache_packet L now st b f)")
    case False
    then show ?thesis by (simp add: cache_ok_def)
  next
    case True
    then obtain xs m c where h: "config_cache st = Some xs" "parse_from_radio L b = Some m"
      "get_config_complete_id m = Some c" "recording_config st" "current_config_id st = Some c"
      using False
      by (auto simp: cache_packet_def split: option.splits if_splits) metis
    show ?thesis
      unfolding cache_packet_completion [OF h(1) h(4) h(5) h(2) h(3)]
      using h(2,3) by (simp add: cache_ok_def cache_completed_def is_completion_entry_def)
  qed
qed

lemma init_bridge_ok: "cache_ok L (init_bridge c m)"
  by (simp add: cache_ok_def init_bridge_def)

lemma on_ble_packet_ok:
  assumes "cache_ok L st"
  shows "cache_ok L (fst (on_ble_packet L t st b))"
proof -
  let ?st1 = "st\<lparr>last_packet_hash := Some (hash_bytes L b), last_packet_time := t\<rparr>"
  have 1: "cache_ok L ?st1"
    using assms by (simp add: cache_ok_def cache_completed_def split: if_splits)
  show ?thesis
    using assms 1 cache_packet_ok [OF 1]
    by (auto simp: on_ble_packet_def Let_def split: sum.splits)
qed

lemma on_ble_packets_ok:
  "cache_ok L st \<Longrightarrow> cache_ok L (fst (on_ble_packets L st ps))"
proof (induction ps arbitrary: st)
  case Nil
  then show ?case by simp
next
  case (Cons a ps)
  obtain t b where a: "a = (t, b)" by (cases a)
  show ?case
    using Cons.IH [OF on_ble_packet_ok [OF Cons.prems, of t b]]
    by (simp add: a split_beta Let_def)
qed

lemma prewarm_cache_ok:
  assumes "cache_ok L st"
  shows "cache_ok L (prewarm_cache L c ps st)"
proof (cases "config_cache st")
  case None
  then show ?thesis using assms
    by (simp add: prewarm_cache_def Let_def cache_ok_def cache_completed_def split: if_splits)
next
  case (Some xs)
  let ?st2 = "st\<lparr>recording_config := True, current_config_id := Some c,
                  config_cache := Some [], config_cache_complete := False\<rparr>"
  show ?thesis
  proof (cases "ble_connected st")
    case False
    then show ?thesis using Some
      by (simp add: prewarm_cache_def Let_def send_to_ble_def cache_ok_def)
  next
    case True
    let ?st3 = "?st2\<lparr>ble_written := ble_written ?st2 @ [serialize_to_radio L (WantConfigId c)]\<rparr>"
    have ok3: "cache_ok L ?st3" by (simp add: cache_ok_def)
    let ?st4 = "fst (on_ble_packets L ?st3 ps)"
    have ok4: "cache_ok L ?st4" using on_ble_packets_ok [OF ok3] .
    have r: "prewarm_cache L c ps st = ?st4\<lparr>recording_config := False\<rparr>"
      using Some True by (simp add: prewarm_cache_def Let_def send_to_ble_def)
    show ?thesis
      using ok4 unfolding r by (auto simp: cache_ok_def cache_completed_def split: if_splits)
  qed
qed

lemma handle_client_payload_cache:
  "config_cache (fst (handle_client_payload L st w req)) = config_cache st
   \<and> config_cache_complete (fst (handle_client_payload L st w req)) = config_cache_complete st
   \<and> recording_config (fst (handle_client_payload L st w req)) = recording_config st"
  by (auto simp: handle_client_payload_def send_to_ble_def split: option.splits sum.splits)

section \<open>Serving a configuration request\<close>

lemma replay_split:
  "xs \<noteq> [] \<Longrightarrow> replay L r xs = map snd (butlast xs) @ replay L r [last xs]"
  by (induction L r xs rule: replay.induct) auto

lemma replay_last_length: "length (replay L r [e]) \<le> 1"
  by (cases e) (auto split: option.splits sum.splits)


lemma replay_terminal:
  assumes "parse_from_radio L (fst e) = Some tm"
    and "length (serialize_from_radio L (tm\<lparr>payload_variant := ConfigCompleteId r\<rparr>)) \<le> 512"
  shows "replay L r [e] =
     [[START1, START2]
      @ pack_H (length (serialize_from_radio L (tm\<lparr>payload_variant := ConfigCompleteId r\<rparr>)))
      @ serialize_from_radio L (tm\<lparr>payload_variant := ConfigCompleteId r\<rparr>)]"
  using assms by (cases e) (simp add: create_tcp_frame_ok)

lemma handle_client_payload_served:
  assumes "parse_to_radio L req = Some m" and "get_want_config_id m = Some B"
    and "config_cache st = Some xs" and "config_cache_complete st"
  shows "handle_client_payload L st w req = (st, w @ replay L B xs)"
  using assms by (simp add: handle_client_payload_def)

lemma handle_client_payload_forwarded:
  assumes "parse_to_radio L req = Some m"
    and "config_cache st = None \<or> \<not> config_cache_complete st"
    and "ble_connected st"
  shows "handle_client_payload L st w req =
           (st\<lparr>ble_written := ble_written st @ [serialize_to_radio L m]\<rparr>, w)"
  using assms
  by (auto simp: handle_client_payload_def send_to_ble_def split: option.splits)



text \<open>
  Claim C2, as amended. A client payload that parses to a configuration request with id
  \<open>B\<close> is answered from the cache when a cache exists and its completion flag is set: the
  state of the bridge does not change, so nothing is written to the device, and the
  client is written the frames of \<open>replay\<close>. For a cache of \<open>N\<close> entries whose last entry
  parses and, with its completion id set to \<open>B\<close>, fits a frame, these are exactly \<open>N\<close>
  frames: the cached frame of every entry but the last, in cache order, then the frame
  of the re-encoded last entry. Otherwise (no cache, or the flag not set) the request
  goes to \<open>send_to_ble\<close> and nothing is written to the client: when the device is
  connected, the device is written the serialisation of the parsed request, not the
  bytes received; when it is not connected, the request is dropped.
\<close>

theorem config_request_short_circuit:
  assumes "parse_to_radio L req = Some m" and "get_want_config_id m = Some B"
  shows "(config_cache st = Some xs \<and> config_cache_complete st \<longrightarrow>
            handle_client_payload L st w req = (st, w @ replay L B xs))
         \<and> (config_cache st = Some xs \<and> config_cache_complete st \<and> xs \<noteq> []
              \<and> parse_from_radio L (fst (last xs)) = Some tm
              \<and> length (serialize_from_radio L (tm\<lparr>payload_variant := ConfigCompleteId B\<rparr>)) \<le> 512
              \<longrightarrow> handle_client_payload L st w req =
                     (st, w @ map snd (butlast xs)
                          @ [[START1, START2]
                             @ pack_H (length (serialize_from_radio L
                                         (tm\<lparr>payload_variant := ConfigCompleteId B\<rparr>)))
                             @ serialize_from_radio L (tm\<lparr>payload_variant := ConfigCompleteId B\<rparr>)])
                  \<and> length (snd (handle_client_payload L st w req)) = length w + length xs
                  \<and> ble_written (fst (handle_client_payload L st w req)) = ble_written st)
         \<and> ((config_cache st = None \<or> \<not> config_cache_complete st) \<and> ble_connected st \<longrightarrow>
              handle_client_payload L st w req =
                (st\<lparr>ble_written := ble_written st @ [serialize_to_radio L m]\<rparr>, w))
         \<and> ((config_cache st = None \<or> \<not> config_cache_complete st) \<and> \<not> ble_connected st \<longrightarrow>
              handle_client_payload L st w req = (st, w))"
proof (intro conjI impI)
  assume "config_cache st = Some xs \<and> config_cache_complete st"
  then show "handle_client_payload L st w req = (st, w @ replay L B xs)"
    using handle_client_payload_served [OF assms] by blast
next
  let ?p = "serialize_from_radio L (tm\<lparr>payload_variant := ConfigCompleteId B\<rparr>)"
  assume a: "config_cache st = Some xs \<and> config_cache_complete st \<and> xs \<noteq> []
              \<and> parse_from_radio L (fst (last xs)) = Some tm \<and> length ?p \<le> 512"
  then have ne: "xs \<noteq> []" by simp
  have "replay L B [last xs] = [[START1, START2] @ pack_H (length ?p) @ ?p]"
    using a replay_terminal [of L "last xs" tm B] by simp
  then have r: "replay L B xs = map snd (butlast xs) @ [[START1, START2] @ pack_H (length ?p) @ ?p]"
    by (simp add: replay_split [OF ne])
  have h: "handle_client_payload L st w req = (st, w @ replay L B xs)"
    using a handle_client_payload_served [OF assms] by blast
  show "handle_client_payload L st w req =
          (st, w @ map snd (butlast xs) @ [[START1, START2] @ pack_H (length ?p) @ ?p])"
    unfolding h r ..
  show "length (snd (handle_client_payload L st w req)) = length w + length xs"
    unfolding h r using ne by simp
  show "ble_written (fst (handle_client_payload L st w req)) = ble_written st"
    unfolding h by simp
next
  assume "(config_cache st = None \<or> \<not> config_cache_complete st) \<and> ble_connected st"
  then show "handle_client_payload L st w req =
                (st\<lparr>ble_written := ble_written st @ [serialize_to_radio L m]\<rparr>, w)"
    using handle_client_payload_forwarded [OF assms(1)] by blast
next
  assume "(config_cache st = None \<or> \<not> config_cache_complete st) \<and> \<not> ble_connected st"
  then show "handle_client_payload L st w req = (st, w)"
    using assms
    by (auto simp: handle_client_payload_def send_to_ble_def split: option.splits)
qed

theorem config_request_short_circuit_witness:
  "parse_to_radio demo_lib [100, 8] = Some (WantConfigId 8)
   \<and> get_want_config_id (WantConfigId 8) = Some 8
   \<and> handle_client_payload demo_lib
       ((init_bridge True 500)\<lparr>config_cache := Some [demo_entry (demo_node 1), demo_entry [7, 5]],
          config_cache_complete := True, ble_connected := True\<rparr>) [] [100, 8]
      = ((init_bridge True 500)\<lparr>config_cache := Some [demo_entry (demo_node 1), demo_entry [7, 5]],
          config_cache_complete := True, ble_connected := True\<rparr>,
         [[0x94, 0xC3, 0, 10, 4, 0, 1, 0, 0, 0, 0, 0, 0, 0], [0x94, 0xC3, 0, 2, 7, 8]])
   \<and> handle_client_payload demo_lib ((init_bridge True 500)\<lparr>ble_connected := True\<rparr>) [] [100, 8]
       = ((init_bridge True 500)\<lparr>ble_connected := True, ble_written := [[100, 8]]\<rparr>, [])
   \<and> handle_client_payload demo_lib (init_bridge True 500) [] [100, 8]
       = (init_bridge True 500, [])"
proof -
  let ?xs = "[demo_entry (demo_node 1), demo_entry [7, 5]]"
  let ?st = "(init_bridge True 500)\<lparr>config_cache := Some ?xs, config_cache_complete := True,
                ble_connected := True\<rparr>"
  let ?init = "(init_bridge True 500)\<lparr>ble_connected := True\<rparr>"
  let ?off = "init_bridge True 500"
  let ?tm = "\<lparr>fr_id = 0, payload_variant = ConfigCompleteId 5\<rparr>"
  have p: "parse_from_radio demo_lib [7, 5] = Some ?tm"
    by (simp add: demo_lib_def demo_parse_from_radio_def)
  have h1: "parse_to_radio demo_lib [100, 8] = Some (WantConfigId 8)"
    by (simp add: demo_lib_def demo_parse_to_radio_def)
  have h2: "get_want_config_id (WantConfigId 8) = Some 8"
    by (simp add: get_want_config_id_def)
  have s: "serialize_from_radio demo_lib (?tm\<lparr>payload_variant := ConfigCompleteId 8\<rparr>) = [7, 8]"
    by (simp add: demo_lib_def demo_serialize_from_radio_def)
  have a: "config_cache ?st = Some ?xs \<and> config_cache_complete ?st \<and> ?xs \<noteq> []
           \<and> parse_from_radio demo_lib (fst (last ?xs)) = Some ?tm
           \<and> length (serialize_from_radio demo_lib (?tm\<lparr>payload_variant := ConfigCompleteId 8\<rparr>)) \<le> 512"
    unfolding s by (simp add: demo_entry_def p)
  have n: "(config_cache ?init = None \<or> \<not> config_cache_complete ?init) \<and> ble_connected ?init"
    by (simp add: init_bridge_def)
  have o: "(config_cache ?off = None \<or> \<not> config_cache_complete ?off) \<and> \<not> ble_connected ?off"
    by (simp add: init_bridge_def)
  have st: "serialize_to_radio demo_lib (WantConfigId 8) = [100, 8]"
    by (simp add: demo_lib_def demo_serialize_to_radio_def)
  have f: "map snd (butlast ?xs) = [[0x94, 0xC3, 0, 10, 4, 0, 1, 0, 0, 0, 0, 0, 0, 0]]"
    by (simp add: demo_entry_def demo_node_def START1_def START2_def pack_H_def)
  have g: "[START1, START2] @ pack_H (length [7, 8 :: byte]) @ [7, 8] = [0x94, 0xC3, 0, 2, 7, 8]"
    by (simp add: START1_def START2_def pack_H_def)
  have c1: "handle_client_payload demo_lib ?st [] [100, 8] =
              (?st, [[0x94, 0xC3, 0, 10, 4, 0, 1, 0, 0, 0, 0, 0, 0, 0], [0x94, 0xC3, 0, 2, 7, 8]])"
  proof -
    have "handle_client_payload demo_lib ?st [] [100, 8] =
            (?st, [] @ map snd (butlast ?xs)
                  @ [[START1, START2]
                     @ pack_H (length (serialize_from_radio demo_lib
                                 (?tm\<lparr>payload_variant := ConfigCompleteId 8\<rparr>)))
                     @ serialize_from_radio demo_lib (?tm\<lparr>payload_variant := ConfigCompleteId 8\<rparr>)])"
      using config_request_short_circuit [OF h1 h2, where st = "?st" and xs = "?xs" and tm = "?tm" and w = "[]"] a
      by blast
    then show ?thesis
      unfolding s f g by simp
  qed
  have c2: "handle_client_payload demo_lib ?init [] [100, 8]
              = (?init\<lparr>ble_written := ble_written ?init @ [[100, 8]]\<rparr>, [])"
    using config_request_short_circuit [OF h1 h2, where st = "?init" and xs = "?xs" and tm = "?tm" and w = "[]"] n
    unfolding st by blast
  have c3: "handle_client_payload demo_lib ?off [] [100, 8] = (?off, [])"
    using config_request_short_circuit [OF h1 h2, where st = "?off" and xs = "?xs" and tm = "?tm" and w = "[]"] o by blast
  have bw: "ble_written ?init = []"
    by (simp add: init_bridge_def)
  show ?thesis
    using h1 h2 c1 c2 c3 by (simp add: bw)
qed

text \<open>
  The claim as stated fails for the forwarding: the request is not passed on as
  received. The payload \<open>[100, 8, 0]\<close> parses to the request with id 8; with no complete
  cache and the device connected, the device is written \<open>[100, 8]\<close>, the serialisation of
  the parsed request. With the device not connected, nothing is written to it: the
  request is dropped.
\<close>

theorem forward_not_verbatim_counterexample:
  "parse_to_radio demo_lib [100, 8, 0] = Some (WantConfigId 8)
   \<and> get_want_config_id (WantConfigId 8) = Some 8
   \<and> config_cache ((init_bridge True 500)\<lparr>ble_connected := True\<rparr>) = Some []
   \<and> \<not> config_cache_complete ((init_bridge True 500)\<lparr>ble_connected := True\<rparr>)
   \<and> ble_written ((init_bridge True 500)\<lparr>ble_connected := True\<rparr>) = []
   \<and> ble_written (fst (handle_client_payload demo_lib
        ((init_bridge True 500)\<lparr>ble_connected := True\<rparr>) [] [100, 8, 0])) = [[100, 8]]
   \<and> [100, 8] \<noteq> [100, 8, 0 :: byte]
   \<and> \<not> ble_connected (init_bridge True 500)
   \<and> \<not> config_cache_complete (init_bridge True 500)
   \<and> ble_written (fst (handle_client_payload demo_lib (init_bridge True 500) [] [100, 8, 0])) = []"
  by (simp add: handle_client_payload_def send_to_ble_def init_bridge_def demo_lib_def
      demo_parse_to_radio_def demo_serialize_to_radio_def get_want_config_id_def)

section \<open>Packets after completion\<close>

lemma cache_packet_node_info:
  assumes "config_cache st = Some xs" and "config_cache_complete st" and "\<not> recording_config st"
    and "parse_from_radio L b = Some m" and "get_node_info m = Some n"
  shows "cache_packet L now st b f =
           st\<lparr>config_cache := Some (update_node_info L (num n) (b, f) xs)\<rparr>"
  using assms
  by (auto simp: cache_packet_def get_node_info_def get_config_complete_id_def
      split: payload_variant.splits)

lemma cache_packet_packet:
  assumes "config_cache st = Some xs" and "config_cache_complete st" and "\<not> recording_config st"
    and "parse_from_radio L b = Some m" and "get_packet m = Some pkt"
  shows "cache_packet L now st b f =
           st\<lparr>config_cache := Some (update_from_packet L now pkt xs)\<rparr>"
  using assms
  by (auto simp: cache_packet_def get_node_info_def get_config_complete_id_def get_packet_def
      split: payload_variant.splits)

lemma cache_packet_length_changes:
  assumes "config_cache st = Some xs" and "config_cache_complete st" and "\<not> recording_config st"
    and "config_cache (cache_packet L now st b f) = Some ys" and "length ys \<noteq> length xs"
  shows "\<exists>m n. parse_from_radio L b = Some m \<and> get_node_info m = Some n"
proof (cases "parse_from_radio L b")
  case None
  then show ?thesis using assms by (simp add: cache_packet_def)
next
  case (Some m)
  show ?thesis
  proof (cases "get_node_info m")
    case (Some n)
    then show ?thesis using \<open>parse_from_radio L b = Some m\<close> by blast
  next
    case None
    have "length ys = length xs"
      using assms(1-4) None \<open>parse_from_radio L b = Some m\<close>
        refresh_first_Some [of L now _ _ _ "butlast xs"]
      by (auto simp: cache_packet_def update_from_packet_def split: option.splits if_splits)
    then show ?thesis using assms(5) by simp
  qed
qed

lemma on_ble_packet_cache_cases:
  "fst (on_ble_packet L t st b) = st
   \<or> (config_cache (fst (on_ble_packet L t st b)) = config_cache st
       \<and> config_cache_complete (fst (on_ble_packet L t st b)) = config_cache_complete st
       \<and> recording_config (fst (on_ble_packet L t st b)) = recording_config st)
   \<or> (\<exists>f. snd (on_ble_packet L t st b) = Broadcast f)"
  by (auto simp: on_ble_packet_def Let_def split: sum.splits)

lemma update_from_packet_absent:
  assumes "from_num pkt = 0 \<or> (\<forall>e \<in> set (butlast xs). \<not> is_node_entry L (from_num pkt) (fst e))"
  shows "update_from_packet L now pkt xs = xs"
  using assms refresh_first_None [of "butlast xs" L "from_num pkt" now]
  by (auto simp: update_from_packet_def split: option.splits)

lemma on_ble_packet_completed:
  assumes "cache_completed L st" and "config_cache st = Some xs"
  shows "cache_completed L (fst (on_ble_packet L t st b))
         \<and> (\<exists>ys. config_cache (fst (on_ble_packet L t st b)) = Some ys \<and> ys \<noteq> []
                  \<and> last ys = last xs)"
proof -
  let ?st1 = "st\<lparr>last_packet_hash := Some (hash_bytes L b), last_packet_time := t\<rparr>"
  have c1: "cache_completed L ?st1" and x1: "config_cache ?st1 = Some xs"
    using assms by (simp_all add: cache_completed_def)
  have ne: "xs \<noteq> []" and le: "is_completion_entry L (last xs)"
    using assms by (auto simp: cache_completed_def)
  have cp: "\<And>f. cache_completed L (cache_packet L t ?st1 b f)
         \<and> (\<exists>ys. config_cache (cache_packet L t ?st1 b f) = Some ys \<and> ys \<noteq> []
                  \<and> last ys = last xs)"
  proof -
    fix f
    obtain ys where ys: "config_cache (cache_packet L t ?st1 b f) = Some ys" "ys \<noteq> []"
      "last ys = last xs" "config_cache_complete (cache_packet L t ?st1 b f)"
      "\<not> recording_config (cache_packet L t ?st1 b f)"
      using cache_packet_completed_last [OF c1 x1, of t b f] by blast
    show "cache_completed L (cache_packet L t ?st1 b f)
         \<and> (\<exists>ys. config_cache (cache_packet L t ?st1 b f) = Some ys \<and> ys \<noteq> []
                  \<and> last ys = last xs)"
      using ys le by (simp add: cache_completed_def)
  qed
  show ?thesis
    using assms c1 x1 ne cp
    by (auto simp: on_ble_packet_def Let_def split: sum.splits)
qed

text \<open>
  Claim C10. With a completed cache, a mesh packet whose sender number is 0, or whose
  sender has no node entry in the cache, leaves the cache as it is, whatever it carries.
  And whenever a packet changes the number of entries of a completed cache, it is a
  \<open>NodeInfo\<close> message.
\<close>

theorem packet_from_unknown_node:
  assumes "cache_completed L st" and "config_cache st = Some xs"
    and "parse_from_radio L b = Some m" and "get_packet m = Some pkt"
    and "from_num pkt = 0 \<or> (\<forall>e \<in> set xs. \<not> is_node_entry L (from_num pkt) (fst e))"
  shows "config_cache (fst (on_ble_packet L t st b)) = Some xs
         \<and> cache_completed L (fst (on_ble_packet L t st b))
         \<and> (\<forall>t' q ys. config_cache (fst (on_ble_packet L t' st q)) = Some ys
                \<and> length ys \<noteq> length xs
                \<longrightarrow> (\<exists>m' n. parse_from_radio L q = Some m' \<and> get_node_info m' = Some n))"
proof (intro conjI allI impI)
  have cc: "config_cache_complete st" and nr: "\<not> recording_config st"
    using assms(1) by (auto simp: cache_completed_def)
  have absent: "from_num pkt = 0 \<or> (\<forall>e \<in> set (butlast xs). \<not> is_node_entry L (from_num pkt) (fst e))"
    using assms(5) by (auto dest: in_set_butlastD)
  show c: "config_cache (fst (on_ble_packet L t st b)) = Some xs"
  proof (cases "\<exists>f. snd (on_ble_packet L t st b) = Broadcast f")
    case True
    then obtain f where f: "snd (on_ble_packet L t st b) = Broadcast f" by blast
    let ?st1 = "st\<lparr>last_packet_hash := Some (hash_bytes L b), last_packet_time := t\<rparr>"
    have "cache_packet L t ?st1 b f = ?st1\<lparr>config_cache := Some (update_from_packet L t pkt xs)\<rparr>"
      using cache_packet_packet [of ?st1 xs L b m pkt t f] assms(2-4) cc nr by simp
    then show ?thesis
      using on_ble_packet_broadcast [OF f] update_from_packet_absent [OF absent] by simp
  next
    case False
    then show ?thesis
      using on_ble_packet_cache_cases [of L t st b] assms(2) by auto
  qed
  show "cache_completed L (fst (on_ble_packet L t st b))"
    using on_ble_packet_completed [OF assms(1,2)] by blast
next
  fix t' q ys
  assume a: "config_cache (fst (on_ble_packet L t' st q)) = Some ys \<and> length ys \<noteq> length xs"
  have cc: "config_cache_complete st" and nr: "\<not> recording_config st"
    using assms(1) by (auto simp: cache_completed_def)
  have "\<exists>f. snd (on_ble_packet L t' st q) = Broadcast f"
    using on_ble_packet_cache_cases [of L t' st q] a assms(2) by auto
  then obtain f where f: "snd (on_ble_packet L t' st q) = Broadcast f" by blast
  let ?st1 = "st\<lparr>last_packet_hash := Some (hash_bytes L q), last_packet_time := t'\<rparr>"
  have "config_cache (cache_packet L t' ?st1 q f) = Some ys"
    using a on_ble_packet_broadcast [OF f] by simp
  then show "\<exists>m' n. parse_from_radio L q = Some m' \<and> get_node_info m' = Some n"
    using cache_packet_length_changes [of ?st1 xs L t' q f ys] assms(2) cc nr a by simp
qed

lemma demo_completion_parses:
  "parse_from_radio demo_lib [7, c] = Some \<lparr>fr_id = 0, payload_variant = ConfigCompleteId (unat c)\<rparr>"
  by (simp add: demo_lib_def demo_parse_from_radio_def)

lemma demo_completed:
  "cache_completed demo_lib
     ((init_bridge True 500)\<lparr>config_cache := Some (ys @ [demo_entry [7, c]]),
        config_cache_complete := True\<rparr>)"
  by (simp add: cache_completed_def init_bridge_def is_completion_entry_def demo_entry_def
      demo_completion_parses get_config_complete_id_def)

lemma demo_node_is_node_entry:
  assumes "k < 65536"
  shows "is_node_entry demo_lib n (demo_node k) \<longleftrightarrow> k = n"
proof -
  have hi: "unat (of_nat (k div 256) :: byte) = k div 256"
    using assms by (simp add: unat_of_nat)
  have lo: "unat (of_nat (k mod 256) :: byte) = k mod 256"
    by (simp add: unat_of_nat)
  show ?thesis
    by (simp add: is_node_entry_def demo_node_parses get_node_info_def hi lo)
qed

lemma demo_completion_not_node_entry: "\<not> is_node_entry demo_lib n [7, c]"
  by (simp add: is_node_entry_def demo_completion_parses get_node_info_def)

theorem packet_from_unknown_node_witness:
  "cache_completed demo_lib
     ((init_bridge True 500)\<lparr>config_cache := Some ([demo_entry (demo_node 1)] @ [demo_entry [7, 5]]),
        config_cache_complete := True\<rparr>)
   \<and> find_node demo_lib 9 ([demo_entry (demo_node 1)] @ [demo_entry [7, 5]]) = None
   \<and> get_packet \<lparr>fr_id = 0, payload_variant = Packet
        \<lparr>from_num = 9, decoded = Some \<lparr>portnum = 3, payload = [42]\<rparr>, packet_rest = []\<rparr>\<rparr>
      = Some \<lparr>from_num = 9, decoded = Some \<lparr>portnum = 3, payload = [42]\<rparr>, packet_rest = []\<rparr>
   \<and> config_cache (fst (on_ble_packet demo_lib 1
        ((init_bridge True 500)\<lparr>config_cache := Some ([demo_entry (demo_node 1)] @ [demo_entry [7, 5]]),
           config_cache_complete := True\<rparr>) [2, 9, 3, 42]))
      = Some ([demo_entry (demo_node 1)] @ [demo_entry [7, 5]])"
proof -
  let ?xs = "[demo_entry (demo_node 1)] @ [demo_entry [7, 5]]"
  let ?st = "(init_bridge True 500)\<lparr>config_cache := Some ?xs, config_cache_complete := True\<rparr>"
  let ?pkt = "\<lparr>from_num = 9, decoded = Some \<lparr>portnum = 3, payload = [42]\<rparr>, packet_rest = []\<rparr>"
  let ?m = "\<lparr>fr_id = 0, payload_variant = Packet ?pkt\<rparr>"
  have h1: "cache_completed demo_lib ?st" by (rule demo_completed)
  have h2: "config_cache ?st = Some ?xs" by simp
  have h3: "parse_from_radio demo_lib [2, 9, 3, 42] = Some ?m"
    by (simp add: demo_lib_def demo_parse_from_radio_def)
  have h4: "get_packet ?m = Some ?pkt" by (simp add: get_packet_def)
  have f: "find_node demo_lib 9 ?xs = None"
    by (simp add: demo_entry_def demo_node_is_node_entry demo_completion_not_node_entry)
  have h5: "from_num ?pkt = 0 \<or> (\<forall>e \<in> set ?xs. \<not> is_node_entry demo_lib (from_num ?pkt) (fst e))"
    using f unfolding find_node_None by simp
  show ?thesis
    using packet_from_unknown_node [OF h1 h2 h3 h4 h5, of 1] h1 f h4 by blast
qed

section \<open>Node updates on a completed cache\<close>






lemma on_ble_packet_node_info:
  assumes "cache_completed L st" and "config_cache st = Some xs"
    and "parse_from_radio L b = Some m" and "get_node_info m = Some n"
    and "snd (on_ble_packet L t st b) = Broadcast f"
  shows "config_cache (fst (on_ble_packet L t st b))
         = Some (update_node_info L (num n) (b, f) xs)"
proof -
  let ?st1 = "st\<lparr>last_packet_hash := Some (hash_bytes L b), last_packet_time := t\<rparr>"
  have cc: "config_cache_complete st" and nr: "\<not> recording_config st"
    using assms(1) by (auto simp: cache_completed_def)
  have "cache_packet L t ?st1 b f
        = ?st1\<lparr>config_cache := Some (update_node_info L (num n) (b, f) xs)\<rparr>"
    using cache_packet_node_info [of ?st1 xs L b m n t f] assms(2-4) cc nr by simp
  then show ?thesis
    using on_ble_packet_broadcast [OF assms(5)] by simp
qed





lemma demo_heard_parses:
  "parse_from_radio demo_lib [4, 0, 1, h, 0, 0, 0, 0, 0, 0] =
     Some \<lparr>fr_id = 0, payload_variant = NodeInfo
       \<lparr>num = 1, user = None, position = None, device_metrics = None,
        last_heard = unat h, node_rest = []\<rparr>\<rparr>"
  by (simp add: demo_lib_def demo_parse_from_radio_def demo_unopt_def)


lemma demo_broadcast:
  assumes "length b \<le> 255" and "last_packet_hash st \<noteq> Some (hash_bytes L b)"
  shows "snd (on_ble_packet L t st b) = Broadcast ([0x94, 0xC3, 0, of_nat (length b)] @ b)"
  using assms
  by (simp add: on_ble_packet_def Let_def create_tcp_frame_def MAX_PACKET_SIZE_def
      START1_def START2_def pack_H_def)



section \<open>Updates of the cache\<close>

lemma cache_packet_idle:
  assumes "\<not> config_cache_complete st" and "\<not> recording_config st"
  shows "cache_packet L now st b f = st"
  using assms by (simp add: cache_packet_def split: option.splits)

lemma on_ble_packet_packet:
  assumes "cache_completed L st" and "config_cache st = Some xs"
    and "parse_from_radio L b = Some m" and "get_packet m = Some pkt"
    and "snd (on_ble_packet L t st b) = Broadcast f"
  shows "config_cache (fst (on_ble_packet L t st b)) = Some (update_from_packet L t pkt xs)"
proof -
  let ?st1 = "st\<lparr>last_packet_hash := Some (hash_bytes L b), last_packet_time := t\<rparr>"
  have cc: "config_cache_complete st" and nr: "\<not> recording_config st"
    using assms(1) by (auto simp: cache_completed_def)
  have "cache_packet L t ?st1 b f = ?st1\<lparr>config_cache := Some (update_from_packet L t pkt xs)\<rparr>"
    using cache_packet_packet [of ?st1 xs L b m pkt t f] assms(2-4) cc nr by simp
  then show ?thesis
    using on_ble_packet_broadcast [OF assms(5)] by simp
qed

lemma refresh_entry_iff:
  "refresh_entry L now ut n pl p = Some e \<longleftrightarrow>
     (\<exists>cfr ni n1. parse_from_radio L p = Some cfr \<and> get_node_info cfr = Some ni
        \<and> num ni = n \<and> apply_update L ut pl ni = Some n1
        \<and> 0 \<le> py_int now \<and> py_int now < 2 ^ 32
        \<and> fst e = serialize_from_radio L
              (cfr\<lparr>payload_variant := NodeInfo (n1\<lparr>last_heard := nat (py_int now)\<rparr>)\<rparr>)
        \<and> length (fst e) \<le> 512
        \<and> snd e = [START1, START2] @ pack_H (length (fst e)) @ fst e)"
  by (cases e)
    (auto simp: refresh_entry_def Let_def create_tcp_frame_def MAX_PACKET_SIZE_def
      split: option.splits)

lemma refresh_first_first:
  assumes "i < length ys" and "refresh_entry L now ut n pl (fst (ys ! i)) = Some e"
    and "\<forall>j < i. refresh_entry L now ut n pl (fst (ys ! j)) = None"
  shows "refresh_first L now ut n pl ys = Some (i, e)"
  using assms
proof (induction ys arbitrary: i)
  case Nil
  then show ?case by simp
next
  case (Cons a ys)
  obtain p f where a: "a = (p, f)" by (cases a)
  show ?case
  proof (cases i)
    case 0
    then show ?thesis using Cons.prems(2) by (simp add: a)
  next
    case (Suc k)
    have none: "refresh_entry L now ut n pl p = None"
      using Cons.prems(3) Suc by (auto simp: a dest: spec [of _ 0])
    have "refresh_first L now ut n pl ys = Some (k, e)"
    proof (rule Cons.IH)
      show "k < length ys" using Cons.prems(1) Suc by simp
      show "refresh_entry L now ut n pl (fst (ys ! k)) = Some e"
        using Cons.prems(2) Suc by simp
      show "\<forall>j < k. refresh_entry L now ut n pl (fst (ys ! j)) = None"
      proof (intro allI impI)
        fix j assume "j < k"
        then have "Suc j < i" using Suc by simp
        then have "refresh_entry L now ut n pl (fst ((a # ys) ! Suc j)) = None"
          using Cons.prems(3) by blast
        then show "refresh_entry L now ut n pl (fst (ys ! j)) = None" by simp
      qed
    qed
    then show ?thesis by (simp add: a none Suc)
  qed
qed

lemma refresh_first_none:
  "(\<forall>p \<in> set ys. refresh_entry L now ut n pl (fst p) = None)
   \<Longrightarrow> refresh_first L now ut n pl ys = None"
  by (induction ys) auto

text \<open>
  Claim C4, as amended. A packet that is processed (not skipped, framed) acts on the
  cache as follows. On a completed cache, a \<open>NodeInfo\<close> message for node \<open>N\<close> replaces the
  first entry for \<open>N\<close> before the last entry by the message and its frame as received
  (\<open>last_heard\<close> is what the message carries), and when there is none it is inserted just
  before the last entry. A mesh packet on port 3, 67 or 4 from node \<open>N \<noteq> 0\<close> refreshes
  the first entry for \<open>N\<close> before the last entry when the entry parses, the payload of
  the packet decodes, the clock fits the 32 bits of \<open>last_heard\<close> and the entry
  serialised again fits a frame: the entry becomes the cached \<open>NodeInfo\<close> with the field
  merged and \<open>last_heard\<close> set to the clock, serialised and framed again. In general the
  entry refreshed is the first one before the last entry for which all this holds
  (\<open>refresh_entry\<close> gives a new entry exactly then); when there is no such entry, and in
  particular when the payload does not decode or there is no entry for \<open>N\<close>, the cache is
  unchanged. A mesh packet with no decoded data, on another port or from node 0 leaves
  the cache unchanged. While recording, a packet that is no completion marker is
  appended and nothing is replaced; when the cache is neither complete nor being
  recorded the packet is ignored.
\<close>

theorem cache_update:
  assumes "config_cache st = Some xs" and "parse_from_radio L b = Some m"
    and "snd (on_ble_packet L t st b) = Broadcast f"
  shows "(cache_completed L st \<and> get_node_info m = Some n
            \<and> find_node L (num n) (butlast xs) = Some i \<longrightarrow>
            config_cache (fst (on_ble_packet L t st b)) = Some (xs[i := (b, f)]))
         \<and> (cache_completed L st \<and> get_node_info m = Some n
            \<and> find_node L (num n) (butlast xs) = None \<longrightarrow>
            config_cache (fst (on_ble_packet L t st b)) = Some (butlast xs @ [(b, f), last xs]))
         \<and> (cache_completed L st \<and> get_packet m = Some pkt \<and> decoded pkt = Some d
            \<and> update_type_of (portnum d) = Some ut \<and> from_num pkt \<noteq> 0
            \<and> find_node L (from_num pkt) (butlast xs) = Some i
            \<and> parse_from_radio L (fst (xs ! i)) = Some cfr \<and> get_node_info cfr = Some ni
            \<and> apply_update L ut (payload d) ni = Some n1
            \<and> 0 \<le> py_int t \<and> py_int t < 2 ^ 32
            \<and> length (serialize_from_radio L
                 (cfr\<lparr>payload_variant := NodeInfo (n1\<lparr>last_heard := nat (py_int t)\<rparr>)\<rparr>)) \<le> 512
            \<longrightarrow>
            config_cache (fst (on_ble_packet L t st b)) =
              Some (xs[i := (serialize_from_radio L
                               (cfr\<lparr>payload_variant := NodeInfo (n1\<lparr>last_heard := nat (py_int t)\<rparr>)\<rparr>),
                             [START1, START2]
                             @ pack_H (length (serialize_from_radio L
                                 (cfr\<lparr>payload_variant := NodeInfo (n1\<lparr>last_heard := nat (py_int t)\<rparr>)\<rparr>)))
                             @ serialize_from_radio L
                                 (cfr\<lparr>payload_variant := NodeInfo (n1\<lparr>last_heard := nat (py_int t)\<rparr>)\<rparr>))]))
         \<and> (cache_completed L st \<and> get_packet m = Some pkt \<and> decoded pkt = Some d
            \<and> update_type_of (portnum d) = Some ut \<and> from_num pkt \<noteq> 0
            \<and> k < length (butlast xs)
            \<and> refresh_entry L t ut (from_num pkt) (payload d) (fst (xs ! k)) = Some e
            \<and> (\<forall>j < k. refresh_entry L t ut (from_num pkt) (payload d) (fst (xs ! j)) = None)
            \<longrightarrow> config_cache (fst (on_ble_packet L t st b)) = Some (xs[k := e]))
         \<and> (cache_completed L st \<and> get_packet m = Some pkt \<and> decoded pkt = Some d
            \<and> update_type_of (portnum d) = Some ut
            \<and> (\<forall>p \<in> set (butlast xs).
                  refresh_entry L t ut (from_num pkt) (payload d) (fst p) = None)
            \<longrightarrow> config_cache (fst (on_ble_packet L t st b)) = Some xs)
         \<and> (refresh_entry L t ut N pl c = Some e \<longleftrightarrow>
              (\<exists>cfr ni n1. parse_from_radio L c = Some cfr \<and> get_node_info cfr = Some ni
                 \<and> num ni = N \<and> apply_update L ut pl ni = Some n1
                 \<and> 0 \<le> py_int t \<and> py_int t < 2 ^ 32
                 \<and> fst e = serialize_from_radio L
                       (cfr\<lparr>payload_variant := NodeInfo (n1\<lparr>last_heard := nat (py_int t)\<rparr>)\<rparr>)
                 \<and> length (fst e) \<le> 512
                 \<and> snd e = [START1, START2] @ pack_H (length (fst e)) @ fst e))
         \<and> (cache_completed L st \<and> get_packet m = Some pkt
            \<and> (decoded pkt = None \<or> from_num pkt = 0
                \<or> find_node L (from_num pkt) (butlast xs) = None
                \<or> (\<exists>d. decoded pkt = Some d \<and> update_type_of (portnum d) = None))
            \<longrightarrow> config_cache (fst (on_ble_packet L t st b)) = Some xs)
         \<and> (\<not> config_cache_complete st \<and> \<not> recording_config st \<longrightarrow>
            config_cache (fst (on_ble_packet L t st b)) = Some xs)
         \<and> (recording_config st \<and> get_config_complete_id m = None \<longrightarrow>
            config_cache (fst (on_ble_packet L t st b)) = Some (xs @ [(b, f)]))"
proof -
  let ?st1 = "st\<lparr>last_packet_hash := Some (hash_bytes L b), last_packet_time := t\<rparr>"
  let ?c = "config_cache (fst (on_ble_packet L t st b))"
  note bc = on_ble_packet_broadcast [OF assms(3)]
  have pk: "?c = Some (update_from_packet L t pkt xs)"
    if "cache_completed L st" and "get_packet m = Some pkt" for pkt
    using on_ble_packet_packet [OF that(1) assms(1,2) that(2) assms(3)] .
  have A1: "?c = Some (xs[i := (b, f)])"
    if "cache_completed L st \<and> get_node_info m = Some n
        \<and> find_node L (num n) (butlast xs) = Some i"
    using that on_ble_packet_node_info [of L st xs b m n t f] assms
    by (simp add: update_node_info_def)
  have A2: "?c = Some (butlast xs @ [(b, f), last xs])"
    if a: "cache_completed L st \<and> get_node_info m = Some n
        \<and> find_node L (num n) (butlast xs) = None"
  proof -
    have "xs \<noteq> []" using a assms(1) by (auto simp: cache_completed_def)
    then show ?thesis
      using a on_ble_packet_node_info [of L st xs b m n t f] assms
      by (simp add: update_node_info_def insert_before_last_def)
  qed
  have B2: "?c = Some (xs[k := e])"
    if a: "cache_completed L st \<and> get_packet m = Some pkt \<and> decoded pkt = Some d
            \<and> update_type_of (portnum d) = Some ut \<and> from_num pkt \<noteq> 0
            \<and> k < length (butlast xs)
            \<and> refresh_entry L t ut (from_num pkt) (payload d) (fst (xs ! k)) = Some e
            \<and> (\<forall>j < k. refresh_entry L t ut (from_num pkt) (payload d) (fst (xs ! j)) = None)"
    for k e
  proof -
    have k: "k < length (butlast xs)" using a by blast
    have nth: "butlast xs ! j = xs ! j" if "j \<le> k" for j
      using that k by (simp add: nth_butlast)
    have "refresh_first L t ut (from_num pkt) (payload d) (butlast xs) = Some (k, e)"
      using a k by (intro refresh_first_first) (simp_all add: nth)
    then show ?thesis
      using a pk [of pkt] by (simp add: update_from_packet_def)
  qed
  have B1: "?c = Some (xs[i := (serialize_from_radio L
                               (cfr\<lparr>payload_variant := NodeInfo (n1\<lparr>last_heard := nat (py_int t)\<rparr>)\<rparr>),
                             [START1, START2]
                             @ pack_H (length (serialize_from_radio L
                                 (cfr\<lparr>payload_variant := NodeInfo (n1\<lparr>last_heard := nat (py_int t)\<rparr>)\<rparr>)))
                             @ serialize_from_radio L
                                 (cfr\<lparr>payload_variant := NodeInfo (n1\<lparr>last_heard := nat (py_int t)\<rparr>)\<rparr>))])"
    if a: "cache_completed L st \<and> get_packet m = Some pkt \<and> decoded pkt = Some d
            \<and> update_type_of (portnum d) = Some ut \<and> from_num pkt \<noteq> 0
            \<and> find_node L (from_num pkt) (butlast xs) = Some i
            \<and> parse_from_radio L (fst (xs ! i)) = Some cfr \<and> get_node_info cfr = Some ni
            \<and> apply_update L ut (payload d) ni = Some n1
            \<and> 0 \<le> py_int t \<and> py_int t < 2 ^ 32
            \<and> length (serialize_from_radio L
                 (cfr\<lparr>payload_variant := NodeInfo (n1\<lparr>last_heard := nat (py_int t)\<rparr>)\<rparr>)) \<le> 512"
  proof -
    let ?ub = "serialize_from_radio L
                 (cfr\<lparr>payload_variant := NodeInfo (n1\<lparr>last_heard := nat (py_int t)\<rparr>)\<rparr>)"
    let ?e = "(?ub, [START1, START2] @ pack_H (length ?ub) @ ?ub)"
    note fs = find_node_Some [of L "from_num pkt" "butlast xs" i]
    have i: "i < length (butlast xs)" using a fs by blast
    have nth: "butlast xs ! j = xs ! j" if "j \<le> i" for j
      using that i by (simp add: nth_butlast)
    have isn: "is_node_entry L (from_num pkt) (fst (xs ! i))"
      using a fs nth [of i] by simp
    have nn: "num ni = from_num pkt"
      using isn a by (simp add: is_node_entry_def)
    have re: "refresh_entry L t ut (from_num pkt) (payload d) (fst (xs ! i)) = Some ?e"
      unfolding refresh_entry_iff using a nn by simp
    have before: "\<forall>j < i. refresh_entry L t ut (from_num pkt) (payload d) (fst (xs ! j)) = None"
    proof (intro allI impI)
      fix j assume j: "j < i"
      then have "\<not> is_node_entry L (from_num pkt) (fst (xs ! j))"
        using a fs nth [of j] by auto
      then show "refresh_entry L t ut (from_num pkt) (payload d) (fst (xs ! j)) = None"
        using refresh_entry_Some_node [of L t ut "from_num pkt" "payload d" "fst (xs ! j)"]
        by (cases "refresh_entry L t ut (from_num pkt) (payload d) (fst (xs ! j))") auto
    qed
    show ?thesis
      using a i re before by (intro B2) blast
  qed
  have B3: "?c = Some xs"
    if a: "cache_completed L st \<and> get_packet m = Some pkt \<and> decoded pkt = Some d
            \<and> update_type_of (portnum d) = Some ut
            \<and> (\<forall>p \<in> set (butlast xs).
                  refresh_entry L t ut (from_num pkt) (payload d) (fst p) = None)"
  proof -
    have "refresh_first L t ut (from_num pkt) (payload d) (butlast xs) = None"
      using a by (intro refresh_first_none) blast
    then show ?thesis
      using a pk [of pkt] by (simp add: update_from_packet_def)
  qed
  have B5: "?c = Some xs"
    if a: "cache_completed L st \<and> get_packet m = Some pkt
            \<and> (decoded pkt = None \<or> from_num pkt = 0
                \<or> find_node L (from_num pkt) (butlast xs) = None
                \<or> (\<exists>d. decoded pkt = Some d \<and> update_type_of (portnum d) = None))"
  proof -
    have "update_from_packet L t pkt xs = xs"
    proof (cases "from_num pkt = 0 \<or> find_node L (from_num pkt) (butlast xs) = None")
      case True
      then show ?thesis
        unfolding find_node_None by (rule update_from_packet_absent)
    next
      case False
      then show ?thesis
        using a by (auto simp: update_from_packet_def)
    qed
    then show ?thesis
      using a pk [of pkt] by simp
  qed
  have C1: "?c = Some xs" if a: "\<not> config_cache_complete st \<and> \<not> recording_config st"
  proof -
    have "cache_packet L t ?st1 b f = ?st1"
      using a by (intro cache_packet_idle) simp_all
    then show ?thesis
      using bc assms(1) by simp
  qed
  have C2: "?c = Some (xs @ [(b, f)])"
    if a: "recording_config st \<and> get_config_complete_id m = None"
  proof -
    have "cache_packet L t ?st1 b f = ?st1\<lparr>config_cache := Some (xs @ [(b, f)])\<rparr>"
      using a cache_packet_recording [of ?st1 xs L b m t f] assms(1,2) by simp
    then show ?thesis
      using bc by simp
  qed
  show ?thesis
    apply (intro conjI impI)
    subgoal by (rule A1)
    subgoal by (rule A2)
    subgoal by (rule B1)
    subgoal by (rule B2)
    subgoal by (rule B3)
    subgoal by (rule refresh_entry_iff)
    subgoal by (rule B5)
    subgoal by (rule C1)
    subgoal by (rule C2)
    done
qed

theorem cache_update_witness:
  "cache_completed demo_lib
     ((init_bridge True 500)\<lparr>config_cache := Some ([demo_entry (demo_node 1)] @ [demo_entry [7, 5]]),
        config_cache_complete := True\<rparr>)
   \<and> snd (on_ble_packet demo_lib 7.5
        ((init_bridge True 500)\<lparr>config_cache := Some ([demo_entry (demo_node 1)] @ [demo_entry [7, 5]]),
           config_cache_complete := True\<rparr>) [2, 1, 3, 42])
      = Broadcast ([0x94, 0xC3, 0, 4] @ [2, 1, 3, 42])
   \<and> find_node demo_lib 1 (butlast ([demo_entry (demo_node 1)] @ [demo_entry [7, 5]])) = Some 0
   \<and> apply_update demo_lib PositionUpdate [42]
        \<lparr>num = 1, user = None, position = None, device_metrics = None, last_heard = 0,
         node_rest = []\<rparr>
      = Some \<lparr>num = 1, user = None, position = Some (Position [42]), device_metrics = None,
              last_heard = 0, node_rest = []\<rparr>
   \<and> py_int 7.5 = 7
   \<and> config_cache (fst (on_ble_packet demo_lib 7.5
        ((init_bridge True 500)\<lparr>config_cache := Some ([demo_entry (demo_node 1)] @ [demo_entry [7, 5]]),
           config_cache_complete := True\<rparr>) [2, 1, 3, 42]))
      = Some [demo_entry [4, 0, 1, 7, 0, 0, 1, 42, 0, 0], demo_entry [7, 5]]
   \<and> snd (on_ble_packet demo_lib 7.5
        ((init_bridge True 500)\<lparr>config_cache := Some ([demo_entry (demo_node 1)] @ [demo_entry [7, 5]]),
           config_cache_complete := True\<rparr>) [2, 1, 3, 42, 43])
      = Broadcast ([0x94, 0xC3, 0, 5] @ [2, 1, 3, 42, 43])
   \<and> refresh_entry demo_lib 7.5 PositionUpdate 1 [42, 43] (demo_node 1) = None
   \<and> config_cache (fst (on_ble_packet demo_lib 7.5
        ((init_bridge True 500)\<lparr>config_cache := Some ([demo_entry (demo_node 1)] @ [demo_entry [7, 5]]),
           config_cache_complete := True\<rparr>) [2, 1, 3, 42, 43]))
      = Some ([demo_entry (demo_node 1)] @ [demo_entry [7, 5]])"
proof -
  let ?xs = "[demo_entry (demo_node 1)] @ [demo_entry [7, 5]]"
  let ?st = "(init_bridge True 500)\<lparr>config_cache := Some ?xs, config_cache_complete := True\<rparr>"
  let ?b = "[2, 1, 3, 42] :: bytes"
  let ?d = "\<lparr>portnum = 3, payload = [42]\<rparr>"
  let ?pkt = "\<lparr>from_num = 1, decoded = Some ?d, packet_rest = []\<rparr>"
  let ?m = "\<lparr>fr_id = 0, payload_variant = Packet ?pkt\<rparr>"
  let ?bad = "[2, 1, 3, 42, 43] :: bytes"
  let ?dbad = "\<lparr>portnum = 3, payload = [42, 43]\<rparr>"
  let ?pbad = "\<lparr>from_num = 1, decoded = Some ?dbad, packet_rest = []\<rparr>"
  let ?mbad = "\<lparr>fr_id = 0, payload_variant = Packet ?pbad\<rparr>"
  let ?ni = "\<lparr>num = 1, user = None, position = None, device_metrics = None, last_heard = 0,
         node_rest = []\<rparr>"
  let ?cfr = "\<lparr>fr_id = 0, payload_variant = NodeInfo ?ni\<rparr>"
  let ?n1 = "\<lparr>num = 1, user = None, position = Some (Position [42]), device_metrics = None,
              last_heard = 0, node_rest = []\<rparr>"
  let ?ub = "serialize_from_radio demo_lib
               (?cfr\<lparr>payload_variant := NodeInfo (?n1\<lparr>last_heard := nat (py_int 7.5)\<rparr>)\<rparr>)"
  have h1: "config_cache ?st = Some ?xs" by simp
  have h2: "parse_from_radio demo_lib ?b = Some ?m"
    by (simp add: demo_lib_def demo_parse_from_radio_def)
  have h3: "snd (on_ble_packet demo_lib 7.5 ?st ?b) = Broadcast ([0x94, 0xC3, 0, 4] @ ?b)"
    using demo_broadcast [of ?b ?st demo_lib "7.5"] by (simp add: init_bridge_def)
  have k2: "parse_from_radio demo_lib ?bad = Some ?mbad"
    by (simp add: demo_lib_def demo_parse_from_radio_def)
  have k3: "snd (on_ble_packet demo_lib 7.5 ?st ?bad) = Broadcast ([0x94, 0xC3, 0, 5] @ ?bad)"
    using demo_broadcast [of ?bad ?st demo_lib "7.5"] by (simp add: init_bridge_def)
  have c: "cache_completed demo_lib ?st" by (rule demo_completed)
  have g: "get_packet ?m = Some ?pkt" and gbad: "get_packet ?mbad = Some ?pbad"
    by (simp_all add: get_packet_def)
  have u: "update_type_of 3 = Some PositionUpdate" by (simp add: update_type_of_def)
  have fn: "find_node demo_lib 1 (butlast ?xs) = Some 0"
    by (simp add: demo_entry_def demo_node_is_node_entry)
  have pc: "parse_from_radio demo_lib (demo_node 1) = Some ?cfr"
    using demo_node_num [of 1] by simp
  have gn: "get_node_info ?cfr = Some ?ni" by (simp add: get_node_info_def)
  have au: "apply_update demo_lib PositionUpdate [42] ?ni = Some ?n1"
    by (simp add: apply_update_def demo_lib_def)
  have aubad: "apply_update demo_lib PositionUpdate [42, 43] ?ni = None"
    by (simp add: apply_update_def demo_lib_def)
  have pi: "py_int 7.5 = 7" by (simp add: py_int_def)
  have ub: "?ub = [4, 0, 1, 7, 0, 0, 1, 42, 0, 0]"
    unfolding pi by (simp add: demo_lib_def demo_serialize_from_radio_def demo_opt_def)
  have rbad: "refresh_entry demo_lib 7.5 PositionUpdate 1 [42, 43] (demo_node 1) = None"
    unfolding refresh_entry_def pc using gn aubad by simp
  have len: "length ?ub \<le> 512"
    unfolding ub by simp
  have pre: "cache_completed demo_lib ?st \<and> get_packet ?m = Some ?pkt \<and> decoded ?pkt = Some ?d
            \<and> update_type_of (portnum ?d) = Some PositionUpdate \<and> from_num ?pkt \<noteq> 0
            \<and> find_node demo_lib (from_num ?pkt) (butlast ?xs) = Some 0
            \<and> parse_from_radio demo_lib (fst (?xs ! 0)) = Some ?cfr \<and> get_node_info ?cfr = Some ?ni
            \<and> apply_update demo_lib PositionUpdate (payload ?d) ?ni = Some ?n1
            \<and> 0 \<le> py_int 7.5 \<and> py_int 7.5 < 2 ^ 32 \<and> length ?ub \<le> 512"
    using c g u fn pc gn au len by (simp add: demo_entry_def py_int_def)
  have "config_cache (fst (on_ble_packet demo_lib 7.5 ?st ?b))
          = Some (?xs[0 := (?ub, [START1, START2] @ pack_H (length ?ub) @ ?ub)])"
    using cache_update [OF h1 h2 h3, where pkt = ?pkt and d = ?d and ut = PositionUpdate
        and i = 0 and cfr = ?cfr and ni = ?ni and ?n1.0 = ?n1] pre by blast
  then have r: "config_cache (fst (on_ble_packet demo_lib 7.5 ?st ?b))
                  = Some [demo_entry [4, 0, 1, 7, 0, 0, 1, 42, 0, 0], demo_entry [7, 5]]"
    unfolding ub by (simp add: demo_entry_def)
  have prebad: "cache_completed demo_lib ?st \<and> get_packet ?mbad = Some ?pbad
            \<and> decoded ?pbad = Some ?dbad
            \<and> update_type_of (portnum ?dbad) = Some PositionUpdate
            \<and> (\<forall>p \<in> set (butlast ?xs).
                  refresh_entry demo_lib 7.5 PositionUpdate (from_num ?pbad) (payload ?dbad) (fst p) = None)"
    using c gbad u rbad by (simp add: demo_entry_def)
  have rb: "config_cache (fst (on_ble_packet demo_lib 7.5 ?st ?bad)) = Some ?xs"
    using cache_update [OF h1 k2 k3, where pkt = ?pbad and d = ?dbad and ut = PositionUpdate]
      prebad by blast
  show ?thesis
    using c h3 fn au pi r k3 rbad rb by blast
qed

text \<open>
  The claim as stated fails in three ways. A telemetry packet from node 3, which has no
  entry in the completed cache, is processed and broadcast, and no entry is inserted. A
  \<open>NodeInfo\<close> message for node 1 that carries \<open>last_heard = 7\<close> and arrives at time 9
  replaces the entry of node 1 as received: the cached \<open>last_heard\<close> is 7, not 9. A
  position packet from node 1 whose payload does not decode leaves the entry of node 1
  as it was, \<open>last_heard\<close> included.
\<close>

theorem field_update_absent_counterexample:
  "snd (on_ble_packet demo_lib 1
        ((init_bridge True 500)\<lparr>config_cache := Some [demo_entry (demo_node 1), demo_entry [7, 5]],
           config_cache_complete := True\<rparr>) [2, 3, 67, 1, 80])
      = Broadcast [0x94, 0xC3, 0, 5, 2, 3, 67, 1, 80]
   \<and> update_type_of 67 = Some TelemetryUpdate
   \<and> find_node demo_lib 3 [demo_entry (demo_node 1), demo_entry [7, 5]] = None
   \<and> config_cache (fst (on_ble_packet demo_lib 1
        ((init_bridge True 500)\<lparr>config_cache := Some [demo_entry (demo_node 1), demo_entry [7, 5]],
           config_cache_complete := True\<rparr>) [2, 3, 67, 1, 80]))
      = Some [demo_entry (demo_node 1), demo_entry [7, 5]]
   \<and> snd (on_ble_packet demo_lib 9
        ((init_bridge True 500)\<lparr>config_cache := Some [demo_entry (demo_node 1), demo_entry [7, 5]],
           config_cache_complete := True\<rparr>) [4, 0, 1, 7, 0, 0, 0, 0, 0, 0])
      = Broadcast [0x94, 0xC3, 0, 10, 4, 0, 1, 7, 0, 0, 0, 0, 0, 0]
   \<and> config_cache (fst (on_ble_packet demo_lib 9
        ((init_bridge True 500)\<lparr>config_cache := Some [demo_entry (demo_node 1), demo_entry [7, 5]],
           config_cache_complete := True\<rparr>) [4, 0, 1, 7, 0, 0, 0, 0, 0, 0]))
      = Some [([4, 0, 1, 7, 0, 0, 0, 0, 0, 0], [0x94, 0xC3, 0, 10, 4, 0, 1, 7, 0, 0, 0, 0, 0, 0]),
              demo_entry [7, 5]]
   \<and> map_option (map_option last_heard \<circ> get_node_info)
        (parse_from_radio demo_lib [4, 0, 1, 7, 0, 0, 0, 0, 0, 0]) = Some (Some 7)
   \<and> nat (py_int 9) = 9
   \<and> snd (on_ble_packet demo_lib 9
        ((init_bridge True 500)\<lparr>config_cache := Some [demo_entry (demo_node 1), demo_entry [7, 5]],
           config_cache_complete := True\<rparr>) [2, 1, 3, 42, 43])
      = Broadcast [0x94, 0xC3, 0, 5, 2, 1, 3, 42, 43]
   \<and> find_node demo_lib 1 [demo_entry (demo_node 1)] = Some 0
   \<and> parse_position demo_lib [42, 43] = None
   \<and> config_cache (fst (on_ble_packet demo_lib 9
        ((init_bridge True 500)\<lparr>config_cache := Some [demo_entry (demo_node 1), demo_entry [7, 5]],
           config_cache_complete := True\<rparr>) [2, 1, 3, 42, 43]))
      = Some [demo_entry (demo_node 1), demo_entry [7, 5]]"
proof -
  let ?xs = "[demo_entry (demo_node 1), demo_entry [7, 5]]"
  let ?st = "(init_bridge True 500)\<lparr>config_cache := Some ?xs, config_cache_complete := True\<rparr>"
  let ?b = "[2, 3, 67, 1, 80] :: bytes"
  let ?pkt = "\<lparr>from_num = 3, decoded = Some \<lparr>portnum = 67, payload = [1, 80]\<rparr>, packet_rest = []\<rparr>"
  let ?m = "\<lparr>fr_id = 0, payload_variant = Packet ?pkt\<rparr>"
  let ?nb = "[4, 0, 1, 7, 0, 0, 0, 0, 0, 0] :: bytes"
  let ?n = "\<lparr>num = 1, user = None, position = None, device_metrics = None,
        last_heard = unat (7 :: byte), node_rest = []\<rparr>"
  let ?nm = "\<lparr>fr_id = 0, payload_variant = NodeInfo ?n\<rparr>"
  let ?bad = "[2, 1, 3, 42, 43] :: bytes"
  let ?pbad = "\<lparr>from_num = 1, decoded = Some \<lparr>portnum = 3, payload = [42, 43]\<rparr>, packet_rest = []\<rparr>"
  let ?mbad = "\<lparr>fr_id = 0, payload_variant = Packet ?pbad\<rparr>"
  let ?ni = "\<lparr>num = 1, user = None, position = None, device_metrics = None, last_heard = 0,
         node_rest = []\<rparr>"
  let ?cfr = "\<lparr>fr_id = 0, payload_variant = NodeInfo ?ni\<rparr>"
  have c: "cache_completed demo_lib ?st"
    using demo_completed [of "[demo_entry (demo_node 1)]" 5] by simp
  have h1: "config_cache ?st = Some ?xs" by simp
  have h2: "parse_from_radio demo_lib ?b = Some ?m"
    by (simp add: demo_lib_def demo_parse_from_radio_def)
  have h3: "snd (on_ble_packet demo_lib 1 ?st ?b) = Broadcast ([0x94, 0xC3, 0, 5] @ ?b)"
    using demo_broadcast [of ?b ?st demo_lib 1] by (simp add: init_bridge_def)
  have g: "get_packet ?m = Some ?pkt" by (simp add: get_packet_def)
  have fn: "find_node demo_lib 3 ?xs = None"
    by (simp add: demo_entry_def demo_node_is_node_entry demo_completion_not_node_entry)
  have "\<forall>e \<in> set (butlast ?xs). \<not> is_node_entry demo_lib (from_num ?pkt) (fst e)"
    by (simp add: demo_entry_def demo_node_is_node_entry)
  then have "update_from_packet demo_lib 1 ?pkt ?xs = ?xs"
    by (intro update_from_packet_absent) simp
  then have r: "config_cache (fst (on_ble_packet demo_lib 1 ?st ?b)) = Some ?xs"
    using on_ble_packet_packet [OF c h1 h2 g h3] by simp
  have u: "update_type_of 67 = Some TelemetryUpdate" by (simp add: update_type_of_def)
  have n2: "parse_from_radio demo_lib ?nb = Some ?nm" by (rule demo_heard_parses)
  have n3: "snd (on_ble_packet demo_lib 9 ?st ?nb) = Broadcast ([0x94, 0xC3, 0, 10] @ ?nb)"
    using demo_broadcast [of ?nb ?st demo_lib 9] by (simp add: init_bridge_def)
  have ng: "get_node_info ?nm = Some ?n" by (simp add: get_node_info_def)
  have nf: "find_node demo_lib 1 [demo_entry (demo_node 1)] = Some 0"
    by (simp add: demo_entry_def demo_node_is_node_entry)
  have "update_node_info demo_lib (num ?n) (?nb, [0x94, 0xC3, 0, 10] @ ?nb) ?xs
          = [(?nb, [0x94, 0xC3, 0, 10] @ ?nb), demo_entry [7, 5]]"
    using nf by (simp add: update_node_info_def)
  then have nr: "config_cache (fst (on_ble_packet demo_lib 9 ?st ?nb))
                   = Some [(?nb, [0x94, 0xC3, 0, 10] @ ?nb), demo_entry [7, 5]]"
    using on_ble_packet_node_info [OF c h1 n2 ng n3] by simp
  have lh: "map_option (map_option last_heard \<circ> get_node_info) (parse_from_radio demo_lib ?nb)
              = Some (Some 7)"
    unfolding n2 by (simp add: get_node_info_def)
  have pi: "nat (py_int 9) = 9" by (simp add: py_int_def)
  have k2: "parse_from_radio demo_lib ?bad = Some ?mbad"
    by (simp add: demo_lib_def demo_parse_from_radio_def)
  have k3: "snd (on_ble_packet demo_lib 9 ?st ?bad) = Broadcast ([0x94, 0xC3, 0, 5] @ ?bad)"
    using demo_broadcast [of ?bad ?st demo_lib 9] by (simp add: init_bridge_def)
  have gbad: "get_packet ?mbad = Some ?pbad" by (simp add: get_packet_def)
  have pp: "parse_position demo_lib [42, 43] = None" by (simp add: demo_lib_def)
  have pc: "parse_from_radio demo_lib (demo_node 1) = Some ?cfr"
    using demo_node_num [of 1] by simp
  have rbad: "refresh_entry demo_lib 9 PositionUpdate 1 [42, 43] (demo_node 1) = None"
    unfolding refresh_entry_def pc by (simp add: get_node_info_def apply_update_def pp)
  have "refresh_first demo_lib 9 PositionUpdate 1 [42, 43] (butlast ?xs) = None"
    using rbad by (simp add: demo_entry_def)
  then have "update_from_packet demo_lib 9 ?pbad ?xs = ?xs"
    by (simp add: update_from_packet_def update_type_of_def)
  then have rb: "config_cache (fst (on_ble_packet demo_lib 9 ?st ?bad)) = Some ?xs"
    using on_ble_packet_packet [OF c h1 k2 gbad k3] by simp
  show ?thesis
    using h3 u fn r n3 nr lh pi k3 nf pp rb by simp
qed

end
